theory Spec2Isabelle
  imports Complex_Main "HOL-Library.Log_Nat" "HOL-Library.AList"
begin

unbundle bit_operations_syntax

section \<open>JavaScript numbers that hold integers\<close>

text \<open>
  Every number of the program is an IEEE-754 double. Where the source computes with
  integers (the coordinate hash and the state of the seeded generator) a double that holds
  an integer is modelled by that integer, and the rounding of \<open>+\<close>, \<open>-\<close> and \<open>*\<close> is
  written out: \<open>fl n\<close> is the double nearest to the integer \<open>n\<close>, ties going to the even
  significand. Integers below \<open>2 ^ 53\<close> in magnitude are doubles themselves; a larger one
  keeps its 53 leading bits. (No value of the program comes near \<open>2 ^ 1024\<close>, so overflow
  to infinity is not modelled.)
\<close>

definition fl :: "int \<Rightarrow> int" where
  "fl n =
     (let a = \<bar>n\<bar>; e = nat (bitlen a - 53)
      in if a < 2 ^ 53 then n
         else let q = a div 2 ^ e; r = a mod 2 ^ e; h = 2 ^ (e - 1);
                  q' = (if h < r \<or> (r = h \<and> odd q) then q + 1 else q)
              in sgn n * (q' * 2 ^ e))"

definition js_add :: "int \<Rightarrow> int \<Rightarrow> int" where
  "js_add a b = fl (a + b)"

definition js_sub :: "int \<Rightarrow> int \<Rightarrow> int" where
  "js_sub a b = fl (a - b)"

definition js_mul :: "int \<Rightarrow> int \<Rightarrow> int" where
  "js_mul a b = fl (a * b)"

text \<open>
  The bitwise operators first convert their operands with ToInt32, which reduces an
  integer modulo \<open>2 ^ 32\<close> into the signed 32-bit range, and convert their result the
  same way. (The shift count of \<open><<\<close> is taken modulo 32; the source shifts by 5.)
\<close>

definition toInt32 :: "int \<Rightarrow> int" where
  "toInt32 n = signed_take_bit 31 n"

definition js_shl :: "int \<Rightarrow> nat \<Rightarrow> int" where
  "js_shl a k = toInt32 (push_bit k (toInt32 a))"

definition js_and :: "int \<Rightarrow> int \<Rightarrow> int" where
  "js_and a b = toInt32 a AND toInt32 b"

text \<open>
  A quotient of two doubles is the double nearest to the exact quotient, ties going to
  the even significand: \<open>fl_real x\<close> rounds a real number to the grid of doubles around
  it, of spacing \<open>2 ^ (e - 52)\<close> for \<open>2 ^ e \<le> \<bar>x\<bar> < 2 ^ (e + 1)\<close> and of spacing
  \<open>2 ^ - 1074\<close> below \<open>2 ^ - 1022\<close>, where doubles are subnormal. (Overflow to infinity,
  from \<open>2 ^ 1024\<close> on, is not modelled.)
\<close>

definition round_even :: "real \<Rightarrow> int" where
  "round_even y =
     (let f = \<lfloor>y\<rfloor>; d = y - real_of_int f
      in if d < 1 / 2 then f else if 1 / 2 < d then f + 1 else if even f then f else f + 1)"

definition fl_real :: "real \<Rightarrow> real" where
  "fl_real x =
     (if x = 0 then 0
      else let e = max \<lfloor>log 2 \<bar>x\<bar>\<rfloor> (- 1022) - 52
           in real_of_int (round_even (x / 2 powr real_of_int e)) * 2 powr real_of_int e)"

section \<open>Chunk.ts: the coordinate hash and the seeded generator\<close>

text \<open>
  \<^verbatim>\<open>function hashCoords(x, z, seed) {
    let h = seed;
    h = ((h << 5) - h) + x;
    h = ((h << 5) - h) + z;
    return h & 0x7fffffff; }\<close>
\<close>

definition hashCoords :: "int \<Rightarrow> int \<Rightarrow> int \<Rightarrow> int" where
  "hashCoords x z s =
     (let h = s;
          h = js_add (js_sub (js_shl h 5) h) x;
          h = js_add (js_sub (js_shl h 5) h) z
      in js_and h 0x7fffffff)"

text \<open>
  \<^verbatim>\<open>function seededRandom(seed) {
    return function() {
      seed = (seed * 1103515245 + 12345) & 0x7fffffff;
      return seed / 0x7fffffff; }; }\<close>
  The closure is its captured variable \<open>seed\<close>: a generator is modelled by that integer,
  and a call returns the value together with the new state. The quotient is the exact
  rational; the double the source returns is the one nearest to it, which lies on the
  same side of \<open>0\<close>, \<open>1\<close> and of the constants the generator compares it with.
\<close>

type_synonym prng = int

definition seededRandom :: "int \<Rightarrow> prng" where
  "seededRandom s = s"

definition next_seed :: "prng \<Rightarrow> prng" where
  "next_seed s = js_and (js_add (js_mul s 1103515245) 12345) 0x7fffffff"

definition random :: "prng \<Rightarrow> real \<times> prng" where
  "random s = (let s' = next_seed s in (real_of_int s' / 0x7fffffff, s'))"

text \<open>The values of the first \<open>n\<close> calls, oldest first, and the state they leave.\<close>

fun calls :: "nat \<Rightarrow> prng \<Rightarrow> real list \<times> prng" where
  "calls 0 s = ([], s)"
| "calls (Suc n) s =
     (let (v, s') = random s; (vs, s'') = calls n s' in (v # vs, s''))"


section \<open>Chunk.ts: the generator\<close>

text \<open>
  Numbers that are not integers (lengths, positions, noise values, angles) are modelled
  by real numbers, with exact arithmetic in place of the rounded arithmetic of doubles.
  Chunk coordinates and the loop counters are small integers, on which the arithmetic of
  doubles is exact.
\<close>

type_synonym vec3 = "real \<times> real \<times> real"

record ChunkCoord =
  coord_x :: int
  coord_z :: int

record WorldConfig =
  chunkSize :: real
  viewDistance :: int
  wallHeight :: real
  corridorWidth :: real
  seed :: int

definition DEFAULT_CONFIG :: WorldConfig where
  "DEFAULT_CONFIG =
     \<lparr>chunkSize = 32, viewDistance = 3, wallHeight = 3, corridorWidth = 3, seed = 42\<rparr>"

text \<open>
  The objects a chunk adds to its group. A material is named by the class-level slot it
  is read from; a light fixture owns a material of its own, of which only the emissive
  intensity varies.
\<close>

datatype geometry = PlaneGeometry real real | BoxGeometry real real real

datatype material = FloorMaterial | CeilingMaterial | WallMaterial | FixtureMaterial real

record mesh =
  mesh_geometry :: geometry
  mesh_material :: material
  mesh_position :: vec3
  mesh_rotation :: vec3
  castShadow :: bool
  receiveShadow :: bool

datatype object3d = Mesh mesh | PointLight vec3

record group =
  group_position :: vec3
  children :: "object3d list"

record Chunk =
  coord :: ChunkCoord
  chunk_config :: WorldConfig
  chunk_mesh :: group

text \<open>
  The class-level slots \<open>Chunk.wallMaterial\<close>, \<open>Chunk.floorMaterial\<close> and
  \<open>Chunk.ceilingMaterial\<close> are the state all chunks of a process share. The first
  constructor call fills them from textures painted with \<open>Math.random\<close>; what the three
  painters produce at that moment is an input of type \<open>'m\<close>.

  \<open>createNoise2D\<close> belongs to the package simplex-noise, which is not part of the
  repository: it is a parameter. It receives the generator (the function to call and the
  state that function captures) and returns the noise field together with the state it
  leaves the generator in.
\<close>

record 'm statics =
  wallMaterial :: "'m option"
  floorMaterial :: "'m option"
  ceilingMaterial :: "'m option"

type_synonym noise2D = "real \<Rightarrow> real \<Rightarrow> real"

record 'm env =
  createNoise2D :: "(prng \<Rightarrow> real \<times> prng) \<Rightarrow> prng \<Rightarrow> noise2D \<times> prng"
  createWallTexture :: 'm
  createFloorTexture :: 'm
  createCeilingTexture :: 'm

definition initMaterials :: "'m env \<Rightarrow> 'm statics \<Rightarrow> 'm statics" where
  "initMaterials e st =
     st\<lparr>wallMaterial := Some (createWallTexture e),
        floorMaterial := Some (createFloorTexture e),
        ceilingMaterial := Some (createCeilingTexture e)\<rparr>"

definition worldX :: "WorldConfig \<Rightarrow> ChunkCoord \<Rightarrow> real" where
  "worldX cfg c = real_of_int (coord_x c) * chunkSize cfg"

definition worldZ :: "WorldConfig \<Rightarrow> ChunkCoord \<Rightarrow> real" where
  "worldZ cfg c = real_of_int (coord_z c) * chunkSize cfg"

text \<open>
  The constant \<open>wallThreshold\<close> of the loop body, as a function of the chunk and of the
  cell \<open>(gx, gz)\<close> whose iteration computes it:
  \<^verbatim>\<open>const depth = Math.sqrt(worldX * worldX + worldZ * worldZ) / 100;
  const wallThreshold = 0.1 - Math.min(depth * 0.02, 0.15);\<close>
\<close>

definition wallThreshold :: "WorldConfig \<Rightarrow> ChunkCoord \<Rightarrow> int \<Rightarrow> int \<Rightarrow> real" where
  "wallThreshold cfg c gx gz =
     (let depth = sqrt (worldX cfg c * worldX cfg c + worldZ cfg c * worldZ cfg c) / 100
      in 0.1 - min (depth * 0.02) 0.15)"

text \<open>
  The distance from the world origin that enters \<open>depth\<close>, and the threshold as the
  specification words it: \<open>0.1 - min (d * 0.02, 0.15)\<close> with \<open>d\<close> the distance from the
  origin of the cell's own world position \<open>(cellWorldX, cellWorldZ)\<close>.
\<close>

definition origin_distance :: "WorldConfig \<Rightarrow> ChunkCoord \<Rightarrow> real" where
  "origin_distance cfg c = sqrt (worldX cfg c * worldX cfg c + worldZ cfg c * worldZ cfg c)"

definition spec_wallThreshold :: "WorldConfig \<Rightarrow> ChunkCoord \<Rightarrow> int \<Rightarrow> int \<Rightarrow> real" where
  "spec_wallThreshold cfg c gx gz =
     (let cellSize = chunkSize cfg / 4;
          cellWorldX = worldX cfg c + real_of_int gx * cellSize;
          cellWorldZ = worldZ cfg c + real_of_int gz * cellSize;
          d = sqrt (cellWorldX * cellWorldX + cellWorldZ * cellWorldZ)
      in 0.1 - min (d * 0.02) 0.15)"

text \<open>One iteration of the cell sweep: the objects so far and the generator go in and out.\<close>

definition sweepCell ::
  "noise2D \<Rightarrow> WorldConfig \<Rightarrow> ChunkCoord \<Rightarrow> int \<Rightarrow> int \<Rightarrow> object3d list \<times> prng
     \<Rightarrow> object3d list \<times> prng" where
  "sweepCell noise cfg c gx gz st =
     (let (objs, r) = st;
          cellSize = chunkSize cfg / 4;
          cellWorldX = worldX cfg c + real_of_int gx * cellSize;
          cellWorldZ = worldZ cfg c + real_of_int gz * cellSize;
          noiseVal = noise (cellWorldX * 0.05) (cellWorldZ * 0.05) * 0.5
                   + noise (cellWorldX * 0.1) (cellWorldZ * 0.1) * 0.3
                   + noise (cellWorldX * 0.2) (cellWorldZ * 0.2) * 0.2;
          (objs, r) =
            (if wallThreshold cfg c gx gz < noiseVal then
               let (u, r) = random r;
                   wallLength = cellSize * (0.5 + u * 0.5);
                   (v, r) = random r;
                   wall = \<lparr>mesh_geometry = BoxGeometry wallLength (wallHeight cfg) 0.2,
                           mesh_material = WallMaterial,
                           mesh_position = (real_of_int gx * cellSize + cellSize / 2,
                                            wallHeight cfg / 2,
                                            real_of_int gz * cellSize + cellSize / 2),
                           mesh_rotation = (0, if 0.5 < v then pi / 2 else 0, 0),
                           castShadow = True, receiveShadow = True\<rparr>
               in (objs @ [Mesh wall], r)
             else (objs, r));
          (p, r) = random r
      in if 0.92 < p then
           let (a, r) = random r;
               (b, r) = random r;
               pillar = \<lparr>mesh_geometry = BoxGeometry 0.4 (wallHeight cfg) 0.4,
                         mesh_material = WallMaterial,
                         mesh_position = (real_of_int gx * cellSize + a * cellSize,
                                          wallHeight cfg / 2,
                                          real_of_int gz * cellSize + b * cellSize),
                         mesh_rotation = (0, 0, 0),
                         castShadow = True, receiveShadow = False\<rparr>
           in (objs @ [Mesh pillar], r)
         else (objs, r))"

text \<open>The body of the two loops of \<open>addLights\<close>, then the loops (\<open>lightSpacing = 8\<close>).\<close>

definition lightAt ::
  "WorldConfig \<Rightarrow> real \<Rightarrow> real \<Rightarrow> object3d list \<times> prng \<Rightarrow> object3d list \<times> prng" where
  "lightAt cfg lx lz st =
     (let (objs, r) = st; (u, r) = random r
      in if 0.85 < u then (objs, r)
         else let (v, r) = random r;
                  fixture = \<lparr>mesh_geometry = BoxGeometry 1.5 0.1 0.5,
                             mesh_material = FixtureMaterial (if 0.9 < v then 0.3 else 1.0),
                             mesh_position = (lx, wallHeight cfg - 0.05, lz),
                             mesh_rotation = (0, 0, 0),
                             castShadow = False, receiveShadow = False\<rparr>
              in (objs @ [Mesh fixture, PointLight (lx, wallHeight cfg - 0.2, lz)], r))"

function lightsZ ::
  "WorldConfig \<Rightarrow> real \<Rightarrow> real \<Rightarrow> object3d list \<times> prng \<Rightarrow> object3d list \<times> prng" where
  "lightsZ cfg lx lz st =
     (if lz < chunkSize cfg then lightsZ cfg lx (lz + 8) (lightAt cfg lx lz st) else st)"
  by pat_completeness auto
termination
  by (relation "measure (\<lambda>(cfg, lx, lz, st). nat \<lceil>chunkSize cfg - lz\<rceil>)") (simp, simp, linarith)

function lightsX ::
  "WorldConfig \<Rightarrow> real \<Rightarrow> object3d list \<times> prng \<Rightarrow> object3d list \<times> prng" where
  "lightsX cfg lx st =
     (if lx < chunkSize cfg then lightsX cfg (lx + 8) (lightsZ cfg lx (8 / 2) st) else st)"
  by pat_completeness auto
termination
  by (relation "measure (\<lambda>(cfg, lx, st). nat \<lceil>chunkSize cfg - lx\<rceil>)") (simp, simp, linarith)

definition addLights :: "WorldConfig \<Rightarrow> object3d list \<times> prng \<Rightarrow> object3d list \<times> prng" where
  "addLights cfg st = lightsX cfg (8 / 2) st"

definition generate :: "'m env \<Rightarrow> WorldConfig \<Rightarrow> ChunkCoord \<Rightarrow> group" where
  "generate e cfg c =
     (let chunkSeed = hashCoords (coord_x c) (coord_z c) (seed cfg);
          (noise, r) = createNoise2D e random (seededRandom chunkSeed);
          floor = \<lparr>mesh_geometry = PlaneGeometry (chunkSize cfg) (chunkSize cfg),
                   mesh_material = FloorMaterial,
                   mesh_position = (chunkSize cfg / 2, 0, chunkSize cfg / 2),
                   mesh_rotation = (- pi / 2, 0, 0),
                   castShadow = False, receiveShadow = True\<rparr>;
          ceiling = \<lparr>mesh_geometry = PlaneGeometry (chunkSize cfg) (chunkSize cfg),
                     mesh_material = CeilingMaterial,
                     mesh_position = (chunkSize cfg / 2, wallHeight cfg, chunkSize cfg / 2),
                     mesh_rotation = (pi / 2, 0, 0),
                     castShadow = False, receiveShadow = False\<rparr>;
          gridSize = 4;
          st = fold (\<lambda>gx. fold (\<lambda>gz. sweepCell noise cfg c gx gz) [0..gridSize - 1])
                 [0..gridSize - 1] ([Mesh floor, Mesh ceiling], r);
          (objs, r) = addLights cfg st
      in \<lparr>group_position = (worldX cfg c, 0, worldZ cfg c), children = objs\<rparr>)"

text \<open>\<open>new Chunk(coord, config)\<close>: the chunk, and the class-level slots afterwards.\<close>

definition Chunk_new ::
  "'m env \<Rightarrow> 'm statics \<Rightarrow> ChunkCoord \<Rightarrow> WorldConfig \<Rightarrow> Chunk \<times> 'm statics" where
  "Chunk_new e st c cfg =
     (let st = (if wallMaterial st = None then initMaterials e st else st)
      in (\<lparr>coord = c, chunk_config = cfg, chunk_mesh = generate e cfg c\<rparr>, st))"

text \<open>
  A stand-in for the noise package, to run the model on concrete inputs: a field that is
  \<open>0\<close> everywhere and draws nothing from the generator. The textures are of type \<open>unit\<close>.
\<close>

definition flat_env :: "unit env" where
  "flat_env = \<lparr>createNoise2D = (\<lambda>next r. (\<lambda>a b. 0, r)),
               createWallTexture = (), createFloorTexture = (), createCeilingTexture = ()\<rparr>"


section \<open>World.ts: the chunk store and the window around the player\<close>

text \<open>
  \<open>chunkKey\<close> is the template literal \<^verbatim>\<open>`${coord.x},${coord.z}`\<close>: two integers in
  decimal notation with a comma between them. (The source prints every digit of an
  integer below \<open>10 ^ 21\<close> in magnitude, and exponent notation from there on, which is
  not modelled.)
\<close>

definition digit :: "nat \<Rightarrow> char" where
  "digit d = char_of (48 + d)"

function digits :: "nat \<Rightarrow> string" where
  "digits n = (if n < 10 then [digit n] else digits (n div 10) @ [digit (n mod 10)])"
  by pat_completeness auto
termination
  by (relation "measure id") simp_all

definition number_string :: "int \<Rightarrow> string" where
  "number_string i = (if i < 0 then CHR ''-'' # digits (nat (- i)) else digits (nat i))"

definition chunkKey :: "ChunkCoord \<Rightarrow> string" where
  "chunkKey c = number_string (coord_x c) @ '','' @ number_string (coord_z c)"

text \<open>
  A component of \<open>lastPlayerChunk\<close> is an integer or, after \<open>forceUpdate\<close>, \<open>Infinity\<close>.
\<close>

datatype jsnum = Fin int | Infinity

text \<open>
  The \<open>Map\<close> of chunks is an association list in insertion order: \<open>set\<close> on a new key
  appends, \<open>delete\<close> removes. The scene and the disposal of geometries belong to the
  renderer; what the world asks of them is kept as a trace: \<open>loadChunk\<close> makes one
  \<open>new Chunk\<close> and one \<open>scene.add\<close>, \<open>unloadChunk\<close> one \<open>scene.remove\<close> and one
  \<open>dispose\<close>. The class-level slots of \<open>Chunk\<close> are carried along with the world, the
  only caller of the constructor.
\<close>

datatype operation = Load ChunkCoord | Unload string

record 'm World =
  config :: WorldConfig
  chunks :: "(string \<times> Chunk) list"
  lastPlayerChunk :: "jsnum \<times> jsnum"
  trace :: "operation list"
  Chunk_statics :: "'m statics"

definition World_new :: "WorldConfig \<Rightarrow> 'm World" where
  "World_new cfg =
     \<lparr>config = cfg, chunks = [], lastPlayerChunk = (Fin 0, Fin 0), trace = [],
      Chunk_statics = \<lparr>wallMaterial = None, floorMaterial = None, ceilingMaterial = None\<rparr>\<rparr>"

definition has :: "(string \<times> 'v) list \<Rightarrow> string \<Rightarrow> bool" where
  "has m k = (map_of m k \<noteq> None)"

text \<open>
  \<open>worldToChunk\<close> is \<open>Math.floor\<close> of the quotient of two doubles, for a chunk size
  other than \<open>0\<close> (a division by \<open>0\<close> gives an infinity or \<open>NaN\<close> in the source and
  \<open>0\<close> here).
\<close>

definition worldToChunk :: "'m World \<Rightarrow> vec3 \<Rightarrow> ChunkCoord" where
  "worldToChunk w pos =
     (case pos of (px, py, pz) \<Rightarrow>
        \<lparr>coord_x = \<lfloor>fl_real (px / chunkSize (config w))\<rfloor>,
         coord_z = \<lfloor>fl_real (pz / chunkSize (config w))\<rfloor>\<rparr>)"

definition loadChunk :: "'m env \<Rightarrow> ChunkCoord \<Rightarrow> 'm World \<Rightarrow> 'm World" where
  "loadChunk e c w =
     (let (chunk, st) = Chunk_new e (Chunk_statics w) c (config w)
      in w\<lparr>chunks := AList.update (chunkKey c) chunk (chunks w),
           trace := trace w @ [Load c],
           Chunk_statics := st\<rparr>)"

definition unloadChunk :: "string \<Rightarrow> Chunk \<Rightarrow> 'm World \<Rightarrow> 'm World" where
  "unloadChunk key chunk w =
     w\<lparr>chunks := AList.delete key (chunks w), trace := trace w @ [Unload key]\<rparr>"

text \<open>
  The body of the two loops over \<open>dx\<close> and \<open>dz\<close>, and the body of the unload sweep. The
  sums \<open>currentChunk.x + dx\<close> and \<open>currentChunk.z + dz\<close> are sums of doubles. The loop
  counters run over the integers from \<open>- viewDistance\<close> to \<open>viewDistance\<close>, which the
  source does for a view distance below \<open>2 ^ 53\<close>.
\<close>

definition visit ::
  "'m env \<Rightarrow> ChunkCoord \<Rightarrow> int \<Rightarrow> int \<Rightarrow> string set \<times> 'm World \<Rightarrow> string set \<times> 'm World" where
  "visit e currentChunk dx dz st =
     (let (neededChunks, w) = st;
          c = \<lparr>coord_x = js_add (coord_x currentChunk) dx,
               coord_z = js_add (coord_z currentChunk) dz\<rparr>
      in (insert (chunkKey c) neededChunks,
          if \<not> has (chunks w) (chunkKey c) then loadChunk e c w else w))"

definition drop_unneeded :: "string set \<Rightarrow> string \<times> Chunk \<Rightarrow> 'm World \<Rightarrow> 'm World" where
  "drop_unneeded neededChunks entry w =
     (case entry of (key, chunk) \<Rightarrow>
        if key \<notin> neededChunks then unloadChunk key chunk w else w)"

definition update :: "'m env \<Rightarrow> vec3 \<Rightarrow> 'm World \<Rightarrow> 'm World" where
  "update e playerPosition w =
     (let currentChunk = worldToChunk w playerPosition
      in if Fin (coord_x currentChunk) = fst (lastPlayerChunk w) \<and>
            Fin (coord_z currentChunk) = snd (lastPlayerChunk w)
         then w
         else
           let w = w\<lparr>lastPlayerChunk := (Fin (coord_x currentChunk), Fin (coord_z currentChunk))\<rparr>;
               vd = viewDistance (config w);
               (neededChunks, w) =
                  fold (\<lambda>dx. fold (\<lambda>dz. visit e currentChunk dx dz) [- vd..vd]) [- vd..vd] ({}, w)
           in fold (drop_unneeded neededChunks) (chunks w) w)"

definition getChunkCount :: "'m World \<Rightarrow> nat" where
  "getChunkCount w = length (chunks w)"

definition forceUpdate :: "'m env \<Rightarrow> vec3 \<Rightarrow> 'm World \<Rightarrow> 'm World" where
  "forceUpdate e playerPosition w =
     update e playerPosition (w\<lparr>lastPlayerChunk := (Infinity, Infinity)\<rparr>)"

text \<open>
  The window as \<open>update\<close> computes it: the coordinates its two loops visit. The square
  of chunk coordinates within \<open>vd\<close> of \<open>c\<close>, which is the Active Window of the
  specification. The keys of the store, and the coordinates whose key is in the store.
  The guard of \<open>update\<close>: the chunk of the player is the recorded one.
\<close>

definition offset :: "ChunkCoord \<Rightarrow> int \<Rightarrow> int \<Rightarrow> ChunkCoord" where
  "offset c dx dz = \<lparr>coord_x = js_add (coord_x c) dx, coord_z = js_add (coord_z c) dz\<rparr>"

definition window :: "ChunkCoord \<Rightarrow> int \<Rightarrow> ChunkCoord set" where
  "window c vd = (\<lambda>(dx, dz). offset c dx dz) ` ({- vd..vd} \<times> {- vd..vd})"

definition square :: "ChunkCoord \<Rightarrow> int \<Rightarrow> ChunkCoord set" where
  "square c vd =
     (\<lambda>(dx, dz). \<lparr>coord_x = coord_x c + dx, coord_z = coord_z c + dz\<rparr>) ` ({- vd..vd} \<times> {- vd..vd})"

definition resident :: "'m World \<Rightarrow> string set" where
  "resident w = fst ` set (chunks w)"

definition snapshot :: "'m World \<Rightarrow> ChunkCoord set" where
  "snapshot w = {c. chunkKey c \<in> resident w}"

definition same_chunk :: "'m World \<Rightarrow> vec3 \<Rightarrow> bool" where
  "same_chunk w pos =
     (Fin (coord_x (worldToChunk w pos)) = fst (lastPlayerChunk w) \<and>
      Fin (coord_z (worldToChunk w pos)) = snd (lastPlayerChunk w))"

text \<open>
  The store holds exactly the coordinates \<open>update\<close> visits around the chunk of a position
  (\<open>covers\<close>); it holds exactly the square around that chunk (\<open>settled\<close>). The chunk of a
  position lies so that every coordinate of the square around it is below \<open>2 ^ 53\<close> in
  magnitude (\<open>in_range\<close>): there the sums of \<open>update\<close> are exact and the keys are printed
  digit by digit.
\<close>

definition covers :: "'m World \<Rightarrow> vec3 \<Rightarrow> bool" where
  "covers w pos =
     (resident w = chunkKey ` window (worldToChunk w pos) (viewDistance (config w)))"

definition settled :: "'m World \<Rightarrow> vec3 \<Rightarrow> bool" where
  "settled w pos =
     (resident w = chunkKey ` square (worldToChunk w pos) (viewDistance (config w)) \<and>
      snapshot w = square (worldToChunk w pos) (viewDistance (config w)))"

definition in_range :: "'m World \<Rightarrow> vec3 \<Rightarrow> bool" where
  "in_range w pos =
     (\<bar>coord_x (worldToChunk w pos)\<bar> + viewDistance (config w) < 2 ^ 53 \<and>
      \<bar>coord_z (worldToChunk w pos)\<bar> + viewDistance (config w) < 2 ^ 53)"

text \<open>
  What a pass of \<open>update\<close> leaves alone in a chunk that is resident and needed: its
  entry in the store is the same, and no \<open>Load\<close> of its coordinate is added to the trace.
\<close>

definition kept :: "ChunkCoord \<Rightarrow> 'm World \<Rightarrow> 'm World \<Rightarrow> bool" where
  "kept c w w' =
     (map_of (chunks w') (chunkKey c) = map_of (chunks w) (chunkKey c) \<and>
      (\<exists>ops. trace w' = trace w @ ops \<and> Load c \<notin> set ops))"

section \<open>server/index.js: the position relay\<close>

text \<open>
  The two module-level variables \<open>players\<close> and \<open>lastBroadcast\<close> are the state of the
  server. A handler takes the state and returns the new state and what it emitted. The
  reading of \<open>Date.now()\<close> that the \<open>move\<close> handler takes is an input of the handler.
\<close>

record player =
  player_id :: string
  position :: vec3
  rotation :: real

record server =
  players :: "(string \<times> player) list"
  lastBroadcast :: int

datatype payload =
    Players "player list"
  | Player_joined player
  | Player_moved player
  | Player_left string

datatype emission = To_socket string payload | To_others string payload | To_all payload

definition BROADCAST_INTERVAL :: int where
  "BROADCAST_INTERVAL = 50"

definition server_start :: server where
  "server_start = \<lparr>players = [], lastBroadcast = 0\<rparr>"

definition on_connection :: "string \<Rightarrow> server \<Rightarrow> server \<times> emission list" where
  "on_connection sid st =
     (let p = \<lparr>player_id = sid, position = (0, 1.6, 0), rotation = 0\<rparr>;
          st = st\<lparr>players := AList.update sid p (players st)\<rparr>
      in (st, [To_socket sid (Players (map snd (players st))), To_others sid (Player_joined p)]))"

definition on_move :: "string \<Rightarrow> vec3 \<Rightarrow> real \<Rightarrow> int \<Rightarrow> server \<Rightarrow> server \<times> emission list" where
  "on_move sid data_position data_rotation now st =
     (case map_of (players st) sid of
        None \<Rightarrow> (st, [])
      | Some p \<Rightarrow>
          let p = p\<lparr>position := data_position, rotation := data_rotation\<rparr>;
              st = st\<lparr>players := AList.update sid p (players st)\<rparr>
          in if BROADCAST_INTERVAL < now - lastBroadcast st
             then (st\<lparr>lastBroadcast := now\<rparr>, [To_others sid (Player_moved p)])
             else (st, []))"

definition on_disconnect :: "string \<Rightarrow> server \<Rightarrow> server \<times> emission list" where
  "on_disconnect sid st =
     (st\<lparr>players := AList.delete sid (players st)\<rparr>, [To_all (Player_left sid)])"

definition on_interval :: "server \<Rightarrow> server \<times> emission list" where
  "on_interval st =
     (st, if 0 < length (players st) then [To_all (Players (map snd (players st)))] else [])"

datatype event =
    Connection string
  | Move string vec3 real int
  | Disconnect string
  | Interval

fun handle :: "event \<Rightarrow> server \<Rightarrow> server \<times> emission list" where
  "handle (Connection sid) st = on_connection sid st"
| "handle (Move sid p r now) st = on_move sid p r now st"
| "handle (Disconnect sid) st = on_disconnect sid st"
| "handle Interval st = on_interval st"

fun is_player_moved :: "emission \<Rightarrow> bool" where
  "is_player_moved (To_others sid (Player_moved p)) = True"
| "is_player_moved other = False"

text \<open>
  The readings of \<open>Date.now()\<close> at which a run of the server broadcast \<open>player_moved\<close>,
  oldest first; and a list of readings in which each is more than the interval after the
  one before.
\<close>

fun moved_at :: "event \<Rightarrow> emission list \<Rightarrow> int list" where
  "moved_at (Move sid p r now) out = (if list_ex is_player_moved out then [now] else [])"
| "moved_at other out = []"

fun broadcast_times :: "event list \<Rightarrow> server \<Rightarrow> int list" where
  "broadcast_times [] st = []"
| "broadcast_times (ev # evs) st =
     (let (st', out) = handle ev st in moved_at ev out @ broadcast_times evs st')"

fun spaced :: "int list \<Rightarrow> bool" where
  "spaced (a # b # ts) = (BROADCAST_INTERVAL < b - a \<and> spaced (b # ts))"
| "spaced ts = True"


section \<open>Properties of the integer arithmetic\<close>

text \<open>Rounding a quotient moves it by at most one part in \<open>2 ^ 53\<close>.\<close>

lemma round_even_near: "\<bar>real_of_int (round_even y) - y\<bar> \<le> 1 / 2"
proof -
  have "real_of_int \<lfloor>y\<rfloor> \<le> y" and "y < real_of_int \<lfloor>y\<rfloor> + 1"
    by linarith+
  then show ?thesis
    by (auto simp: round_even_def Let_def)
qed

lemma exponent_ge:
  assumes "0 < x" and "1 / 2 ^ n \<le> x"
  shows "- int n \<le> \<lfloor>log 2 x\<rfloor>"
proof -
  have "log 2 (1 / 2 ^ n) \<le> log 2 x"
    using assms by (subst log_le_cancel_iff) simp_all
  moreover have "log 2 (1 / 2 ^ n) = - real n"
    by (simp add: log_divide log_nat_power)
  ultimately show ?thesis
    by (simp add: le_floor_iff)
qed

lemma fl_real_near:
  assumes "0 < x" and "1 / 2 ^ 1022 \<le> x"
  shows "\<bar>fl_real x - x\<bar> \<le> x / 2 ^ 53"
proof -
  define e0 where "e0 = \<lfloor>log 2 \<bar>x\<bar>\<rfloor>"
  define u where "u = 2 powr real_of_int (e0 - 52)"
  have upos: "0 < u" by (simp add: u_def)
  have "- int 1022 \<le> e0"
    unfolding e0_def using assms by (simp only: abs_of_pos exponent_ge)
  then have "- 1022 \<le> e0"
    by simp
  then have m: "max \<lfloor>log 2 \<bar>x\<bar>\<rfloor> (- 1022) = e0"
    by (simp add: e0_def)
  have f: "fl_real x = real_of_int (round_even (x / u)) * u"
    unfolding fl_real_def Let_def m u_def using assms(1) by simp
  have "real_of_int e0 \<le> log 2 x"
    using assms(1) by (simp add: e0_def)
  then have "2 powr real_of_int e0 \<le> 2 powr log 2 x"
    by (simp only: powr_le_cancel_iff) 
  then have le: "2 powr real_of_int e0 \<le> x"
    using assms(1) by simp
  have "u = 2 powr real_of_int e0 / 2 ^ 52"
    by (simp add: u_def powr_diff)
  with le have ub: "u \<le> x / 2 ^ 52"
    by (simp add: divide_right_mono)
  have "fl_real x - x = (real_of_int (round_even (x / u)) - x / u) * u"
    using upos by (simp add: f algebra_simps)
  then have "\<bar>fl_real x - x\<bar> = \<bar>real_of_int (round_even (x / u)) - x / u\<bar> * u"
    using upos by (simp add: abs_mult)
  also have "\<dots> \<le> (1 / 2) * u"
    using round_even_near [of "x / u"] upos by (intro mult_right_mono) simp_all
  also have "\<dots> \<le> (1 / 2) * (x / 2 ^ 52)"
    using ub by simp
  finally show ?thesis
    by simp
qed

lemma floor_fl_real:
  assumes "0 < x" and "1 / 2 ^ 1022 \<le> x"
    and "real_of_int n \<le> x - x / 2 ^ 53" and "x + x / 2 ^ 53 < real_of_int n + 1"
  shows "\<lfloor>fl_real x\<rfloor> = n"
proof -
  have "\<bar>fl_real x - x\<bar> \<le> x / 2 ^ 53"
    using assms(1,2) by (rule fl_real_near)
  then have "real_of_int n \<le> fl_real x" and "fl_real x < real_of_int n + 1"
    using assms(3,4) by linarith+
  then show ?thesis
    by (simp add: floor_eq_iff)
qed

lemma floor_fl_real_0: "\<lfloor>fl_real 0\<rfloor> = 0"
  by (simp add: fl_real_def)

lemma fl_small: "\<bar>n\<bar> < 2 ^ 53 \<Longrightarrow> fl n = n"
  by (simp add: fl_def)

lemma toInt32_bounds: "- (2 ^ 31) \<le> toInt32 n" "toInt32 n < 2 ^ 31"
  using signed_take_bit_int_greater_eq_minus_exp [of 31 n] signed_take_bit_int_less_exp [of 31 n]
  by (simp_all add: toInt32_def)

lemma js_and_mask31: "js_and a 0x7fffffff = a mod 2 ^ 31"
proof -
  have m: "(0x7fffffff :: int) = mask 31"
    by (simp add: mask_eq_exp_minus_1)
  have "toInt32 0x7fffffff = (0x7fffffff :: int)"
    unfolding toInt32_def by (rule signed_take_bit_int_eq_self) simp_all
  then have "js_and a 0x7fffffff = take_bit 31 (signed_take_bit 31 a)"
    unfolding js_and_def toInt32_def m by (simp add: take_bit_eq_mask)
  also have "\<dots> = take_bit 31 a"
    by (rule take_bit_signed_take_bit) simp
  finally show ?thesis
    by (simp add: take_bit_eq_mod)
qed

lemma toInt32_mod: "toInt32 n mod 2 ^ 32 = n mod 2 ^ 32"
proof -
  have "take_bit 32 (signed_take_bit 31 n) = take_bit 32 n"
    by (rule take_bit_signed_take_bit) simp
  then show ?thesis
    by (simp add: toInt32_def take_bit_eq_mod)
qed

lemma js_shl5_mod: "js_shl h 5 mod 2 ^ 31 = (32 * h) mod 2 ^ 31"
proof -
  have a: "js_shl h 5 mod 2 ^ 32 = (32 * toInt32 h) mod 2 ^ 32"
    unfolding js_shl_def toInt32_mod by (simp add: push_bit_eq_mult mult.commute)
  have "(32 * toInt32 h) mod 2 ^ 32 = (32 * (toInt32 h mod 2 ^ 32)) mod 2 ^ 32"
    by (simp add: mod_mult_right_eq)
  also have "\<dots> = (32 * h) mod 2 ^ 32"
    by (simp only: toInt32_mod mod_mult_right_eq)
  finally have b: "js_shl h 5 mod 2 ^ 32 = (32 * h) mod 2 ^ 32"
    using a by simp
  have "js_shl h 5 mod 2 ^ 31 = (js_shl h 5 mod 2 ^ 32) mod 2 ^ 31"
    by (simp add: mod_mod_cancel)
  also have "\<dots> = ((32 * h) mod 2 ^ 32) mod 2 ^ 31"
    by (simp only: b)
  also have "\<dots> = (32 * h) mod 2 ^ 31"
    by (simp add: mod_mod_cancel)
  finally show ?thesis .
qed

lemma js_shl_bounds: "- (2 ^ 31) \<le> js_shl h k" "js_shl h k < 2 ^ 31"
  unfolding js_shl_def by (rule toInt32_bounds)+


lemma shl5_sub_mod:
  "(js_shl h 5 - h + y) mod 2 ^ 31 = (31 * h + y) mod 2 ^ 31"
proof -
  have "(js_shl h 5 - h + y) mod 2 ^ 31 = (js_shl h 5 mod 2 ^ 31 - h + y) mod 2 ^ 31"
    by (metis mod_add_left_eq mod_diff_left_eq)
  also have "\<dots> = ((32 * h) mod 2 ^ 31 - h + y) mod 2 ^ 31"
    by (simp only: js_shl5_mod)
  also have "\<dots> = (32 * h - h + y) mod 2 ^ 31"
    by (metis mod_add_left_eq mod_diff_left_eq)
  finally show ?thesis
    by (simp add: algebra_simps)
qed

lemma fold_exact:
  assumes "\<bar>h\<bar> \<le> 2 ^ 51 + 2 ^ 32" and "\<bar>y\<bar> \<le> 2 ^ 50"
  shows "js_add (js_sub (js_shl h 5) h) y = js_shl h 5 - h + y"
proof -
  have "\<bar>js_shl h 5 - h\<bar> < 2 ^ 53"
    using js_shl_bounds [of h 5] assms by simp
  then have "js_sub (js_shl h 5) h = js_shl h 5 - h"
    by (simp add: js_sub_def fl_small)
  moreover have "\<bar>js_shl h 5 - h + y\<bar> < 2 ^ 53"
    using js_shl_bounds [of h 5] assms by simp
  ultimately show ?thesis
    by (simp add: js_add_def fl_small)
qed

lemma hashCoords_exact:
  assumes "\<bar>x\<bar> \<le> 2 ^ 50" and "\<bar>z\<bar> \<le> 2 ^ 50" and "\<bar>s\<bar> \<le> 2 ^ 50"
  shows "hashCoords x z s = (961 * s + 31 * x + z) mod 2 ^ 31"
proof -
  define h1 where "h1 = js_shl s 5 - s + x"
  have s1: "js_add (js_sub (js_shl s 5) s) x = h1"
    unfolding h1_def using assms by (intro fold_exact) simp_all
  have b1: "\<bar>h1\<bar> \<le> 2 ^ 51 + 2 ^ 32"
    unfolding h1_def using js_shl_bounds [of s 5] assms by simp
  have s2: "js_add (js_sub (js_shl h1 5) h1) z = js_shl h1 5 - h1 + z"
    using b1 assms by (intro fold_exact) simp_all
  have "hashCoords x z s = (js_shl h1 5 - h1 + z) mod 2 ^ 31"
    by (simp add: hashCoords_def Let_def s1 s2 js_and_mask31)
  also have "\<dots> = (31 * h1 + z) mod 2 ^ 31"
    by (rule shl5_sub_mod)
  also have "\<dots> = (31 * (h1 mod 2 ^ 31) + z) mod 2 ^ 31"
    by (metis mod_add_left_eq mod_mult_right_eq)
  also have "h1 mod 2 ^ 31 = (31 * s + x) mod 2 ^ 31"
    unfolding h1_def by (rule shl5_sub_mod)
  also have "(31 * ((31 * s + x) mod 2 ^ 31) + z) mod 2 ^ 31 = (31 * (31 * s + x) + z) mod 2 ^ 31"
    by (metis mod_add_left_eq mod_mult_right_eq)
  finally show ?thesis
    by (simp add: algebra_simps)
qed

lemma hash_line:
  assumes "\<bar>x\<bar> < 2 ^ 50" and "\<bar>z\<bar> \<le> 2 ^ 50 - 31" and "\<bar>s\<bar> \<le> 2 ^ 50"
  shows "hashCoords (x + 1) (z - 31) s = hashCoords x z s"
proof -
  have "hashCoords (x + 1) (z - 31) s = (961 * s + 31 * (x + 1) + (z - 31)) mod 2 ^ 31"
    using assms by (intro hashCoords_exact) simp_all
  moreover have "hashCoords x z s = (961 * s + 31 * x + z) mod 2 ^ 31"
    using assms by (intro hashCoords_exact) simp_all
  ultimately show ?thesis
    by (simp add: algebra_simps)
qed

text \<open>Rounding an integer of 54 bits or more.\<close>

lemma fl_big:
  assumes "2 ^ 53 \<le> n"
  shows "even (fl n)" and "2 ^ 53 \<le> fl n"
proof -
  define e where "e = nat (bitlen n - 53)"
  define q where "q = n div 2 ^ e"
  define q' where "q' = (if 2 ^ (e - 1) < n mod 2 ^ e \<or> (n mod 2 ^ e = 2 ^ (e - 1) \<and> odd q) then q + 1 else q)"
  have pos: "0 < n" using assms by simp
  have f: "fl n = q' * 2 ^ e"
    using assms pos by (simp add: fl_def Let_def e_def q_def q'_def)
  have lo: "2 ^ nat (bitlen n - 1) \<le> n" and hi: "n < 2 ^ nat (bitlen n)"
    using bitlen_bounds [OF pos] by simp_all
  have "(2::int) ^ 53 < 2 ^ nat (bitlen n)"
    using assms hi by linarith
  then have "53 < nat (bitlen n)"
    by (simp only: power_strict_increasing_iff) 
  then have e1: "1 \<le> e" and be: "nat (bitlen n - 1) = 52 + e"
    unfolding e_def by linarith+
  show "even (fl n)"
    using e1 unfolding f by (cases e) simp_all
  have "(2::int) ^ 52 * 2 ^ e \<le> n"
    using lo unfolding be by (simp add: power_add)
  then have "((2::int) ^ 52 * 2 ^ e) div 2 ^ e \<le> n div 2 ^ e"
    by (intro zdiv_mono1) simp_all
  then have "2 ^ 52 \<le> q"
    unfolding q_def by simp
  then have "2 ^ 52 \<le> q'"
    unfolding q'_def by simp
  moreover have "(2::int) ^ 1 \<le> 2 ^ e"
    using e1 by (intro power_increasing) simp_all
  ultimately have "(2::int) ^ 52 * 2 ^ 1 \<le> q' * 2 ^ e"
    by (intro mult_mono) simp_all
  then show "2 ^ 53 \<le> fl n"
    unfolding f by simp
qed


text \<open>The multiplier is invertible modulo \<open>2 ^ 31\<close>.\<close>

lemma lcg_preimage:
  assumes "(s * 1103515245 + 12345) mod 2 ^ 31 = (2 ^ 31 - 1 :: int)"
  shows "s mod 2 ^ 31 = 230538014"
proof -
  have "((s * 1103515245 + 12345) * 1857678181) mod 2 ^ 31
      = (((s * 1103515245 + 12345) mod 2 ^ 31) * 1857678181) mod 2 ^ 31"
    by (simp only: mod_mult_left_eq)
  also have "\<dots> = ((2 ^ 31 - 1) * 1857678181) mod (2 ^ 31 :: int)"
    by (simp only: assms)
  also have "\<dots> = 289805467"
    by simp
  finally have a: "((s * 1103515245 + 12345) * 1857678181) mod 2 ^ 31 = 289805467" .
  have "(s * 1103515245 + 12345) * 1857678181 = (s + 22933037144445) + 2 ^ 31 * (s * 954594553)"
    by (simp add: algebra_simps)
  then have "((s * 1103515245 + 12345) * 1857678181) mod 2 ^ 31 = (s + 22933037144445) mod 2 ^ 31"
    by (simp only: mod_mult_self2)
  with a have "(s + 22933037144445) mod 2 ^ 31 = 289805467"
    by simp
  then have "(s + 22933037144445 - 22933037144445) mod 2 ^ 31 = (289805467 - 22933037144445) mod (2 ^ 31 :: int)"
    by (metis mod_diff_left_eq)
  then show ?thesis
    by simp
qed

text \<open>
  The recurrence without rounding would reach the state \<open>2 ^ 31 - 1\<close>, whose quotient by
  \<open>2 ^ 31 - 1\<close> is \<open>1\<close>; the rounded one does not.
\<close>

lemma exact_recurrence_reaches_max:
  "(230538014 * 1103515245 + 12345) mod 2 ^ 31 = (2 ^ 31 - 1 :: int)"
  by simp

lemma rounded_recurrence_at_preimage: "next_seed 230538014 = 0"
  by code_simp

lemma next_seed_range: "0 \<le> next_seed s" "next_seed s < 2 ^ 31"
  by (simp_all add: next_seed_def js_and_mask31)

lemma next_seed_exact:
  assumes "0 \<le> s" and "s * 1103515245 + 12345 < 2 ^ 53"
  shows "next_seed s = (s * 1103515245 + 12345) mod 2 ^ 31"
proof -
  have "\<bar>s * 1103515245\<bar> < 2 ^ 53" and "\<bar>s * 1103515245 + 12345\<bar> < 2 ^ 53"
    using assms by simp_all
  then show ?thesis
    by (simp add: next_seed_def js_and_mask31 js_add_def js_mul_def fl_small)
qed

lemma next_seed_even:
  assumes "0 \<le> s" and "2 ^ 53 \<le> s * 1103515245 + 12345"
  shows "even (next_seed s)"
proof -
  have "2 ^ 53 \<le> js_mul s 1103515245 + 12345"
  proof (cases "2 ^ 53 \<le> s * 1103515245")
    case True
    then show ?thesis
      using fl_big(2) [of "s * 1103515245"] by (simp add: js_mul_def)
  next
    case False
    then have "fl (s * 1103515245) = s * 1103515245"
      using assms by (intro fl_small) simp
    then show ?thesis
      using assms by (simp add: js_mul_def)
  qed
  then have "even (js_add (js_mul s 1103515245) 12345)"
    unfolding js_add_def by (rule fl_big(1))
  then show ?thesis
    unfolding next_seed_def js_and_mask31
    by (simp add: dvd_mod_iff)
qed

lemma next_seed_not_max:
  assumes "0 \<le> s" and "s < 2 ^ 31"
  shows "next_seed s \<noteq> 2 ^ 31 - 1"
proof (cases "s * 1103515245 + 12345 < 2 ^ 53")
  case True
  show ?thesis
  proof
    assume "next_seed s = 2 ^ 31 - 1"
    then have "(s * 1103515245 + 12345) mod 2 ^ 31 = 2 ^ 31 - 1"
      using next_seed_exact [OF assms(1) True] by simp
    then have "s mod 2 ^ 31 = 230538014"
      by (rule lcg_preimage)
    then have "s = 230538014"
      using assms by simp
    with True show False
      by simp
  qed
next
  case False
  then have "even (next_seed s)"
    using assms by (intro next_seed_even) simp_all
  then show ?thesis
    by auto
qed

lemma random_fst: "fst (random s) = real_of_int (next_seed s) / 2147483647"
  by (simp add: random_def Let_def)

lemma random_snd: "snd (random s) = next_seed s"
  by (simp add: random_def Let_def)

lemma random_unit:
  assumes "0 \<le> s" and "s < 2 ^ 31"
  shows "0 \<le> fst (random s)" and "fst (random s) < 1"
proof -
  have "next_seed s < 2 ^ 31 - 1"
    using next_seed_range(2) [of s] next_seed_not_max [OF assms] by simp
  then show "fst (random s) < 1"
    by (simp add: random_fst)
  show "0 \<le> fst (random s)"
    using next_seed_range(1) [of s] by (simp add: random_fst)
qed

lemma calls_unit:
  assumes "0 \<le> s" and "s < 2 ^ 31"
  shows "list_all (\<lambda>v. 0 \<le> v \<and> v < 1) (fst (calls n s))"
  using assms
proof (induction n arbitrary: s)
  case 0
  show ?case by simp
next
  case (Suc n)
  have "list_all (\<lambda>v. 0 \<le> v \<and> v < 1) (fst (calls n (next_seed s)))"
    using next_seed_range [of s] by (intro Suc.IH) simp_all
  then show ?case
    using random_unit [OF Suc.prems]
    by (simp add: case_prod_beta random_snd)
qed

section \<open>Properties of the chunk store\<close>

lemma has_resident: "has (chunks w) k \<longleftrightarrow> k \<in> resident w"
  by (simp add: has_def resident_def map_of_eq_None_iff)

lemma keys_delete: "fst ` set (AList.delete k al) = fst ` set al - {k}"
  using delete_keys [of k al] by (metis image_set set_removeAll)

lemma loadChunk_fields:
  "config (loadChunk e c w) = config w"
  "lastPlayerChunk (loadChunk e c w) = lastPlayerChunk w"
  "trace (loadChunk e c w) = trace w @ [Load c]"
  "resident (loadChunk e c w) = insert (chunkKey c) (resident w)"
  by (simp_all add: loadChunk_def resident_def case_prod_beta dom_update)

lemma loadChunk_other:
  "k \<noteq> chunkKey c \<Longrightarrow> map_of (chunks (loadChunk e c w)) k = map_of (chunks w) k"
  by (simp add: loadChunk_def case_prod_beta update_conv')

lemma unloadChunk_fields:
  "config (unloadChunk k ch w) = config w"
  "lastPlayerChunk (unloadChunk k ch w) = lastPlayerChunk w"
  "trace (unloadChunk k ch w) = trace w @ [Unload k]"
  "resident (unloadChunk k ch w) = resident w - {k}"
  "Chunk_statics (unloadChunk k ch w) = Chunk_statics w"
  by (simp_all add: unloadChunk_def resident_def keys_delete)

lemma unloadChunk_other:
  "k' \<noteq> k \<Longrightarrow> map_of (chunks (unloadChunk k ch w)) k' = map_of (chunks w) k'"
  by (simp add: unloadChunk_def)

text \<open>A fold whose steps each add a set of keys.\<close>

lemma fold_adds:
  assumes "\<And>a st. a \<in> set as \<Longrightarrow> K (f a st) = G a \<union> K st"
  shows "K (fold f as st) = (\<Union>a\<in>set as. G a) \<union> K st"
  using assms by (induction as arbitrary: st) auto

lemma fold_keeps:
  assumes "\<And>a st. P st \<Longrightarrow> P (f a st)" and "P st"
  shows "P (fold f as st)"
  using assms by (induction as arbitrary: st) auto

lemma visit_needed:
  "fst (visit e cur dx dz st) = {chunkKey (offset cur dx dz)} \<union> fst st"
  by (simp add: visit_def offset_def case_prod_beta Let_def)

lemma visit_resident:
  "resident (snd (visit e cur dx dz st)) = {chunkKey (offset cur dx dz)} \<union> resident (snd st)"
  by (auto simp: visit_def offset_def case_prod_beta Let_def has_resident loadChunk_fields)

lemma window_keys:
  "(\<Union>dx\<in>set [- vd..vd]. \<Union>dz\<in>set [- vd..vd]. {chunkKey (offset c dx dz)}) = chunkKey ` window c vd"
  by (auto simp: window_def offset_def)

lemma loops_needed:
  "fst (fold (\<lambda>dx. fold (\<lambda>dz. visit e cur dx dz) zs) xs st)
     = (\<Union>dx\<in>set xs. \<Union>dz\<in>set zs. {chunkKey (offset cur dx dz)}) \<union> fst st"
  by (intro fold_adds) (simp add: visit_needed)

lemma loops_resident:
  "resident (snd (fold (\<lambda>dx. fold (\<lambda>dz. visit e cur dx dz) zs) xs st))
     = (\<Union>dx\<in>set xs. \<Union>dz\<in>set zs. {chunkKey (offset cur dx dz)}) \<union> resident (snd st)"
  by (intro fold_adds [where K = "\<lambda>st. resident (snd st)"]) (simp add: visit_resident)


lemma drop_unneeded_resident:
  "resident (drop_unneeded N entry w) = resident w - ({fst entry} - N)"
  by (cases entry) (auto simp: drop_unneeded_def unloadChunk_fields)

lemma sweep_resident:
  "resident (fold (drop_unneeded N) es w) = resident w - (fst ` set es - N)"
  by (induction es arbitrary: w) (auto simp: drop_unneeded_resident)

lemma sweep_config: "config (fold (drop_unneeded N) es w) = config w"
  by (induction es arbitrary: w) (auto simp: drop_unneeded_def unloadChunk_fields split: prod.splits)

lemma update_same:
  assumes "Fin (coord_x (worldToChunk w pos)) = fst (lastPlayerChunk w)"
    and "Fin (coord_z (worldToChunk w pos)) = snd (lastPlayerChunk w)"
  shows "update e pos w = w"
  using assms by (simp add: update_def Let_def)

lemma worldToChunk_lastPlayerChunk [simp]:
  "worldToChunk (w\<lparr>lastPlayerChunk := l\<rparr>) pos = worldToChunk w pos"
  by (simp add: worldToChunk_def)

lemma resident_lastPlayerChunk [simp]:
  "resident (w\<lparr>lastPlayerChunk := l\<rparr>) = resident w"
  by (simp add: resident_def)

lemma update_moved:
  assumes "\<not> (Fin (coord_x (worldToChunk w pos)) = fst (lastPlayerChunk w)
            \<and> Fin (coord_z (worldToChunk w pos)) = snd (lastPlayerChunk w))"
  shows "resident (update e pos w) = chunkKey ` window (worldToChunk w pos) (viewDistance (config w))"
proof -
  define cur where "cur = worldToChunk w pos"
  define vd where "vd = viewDistance (config w)"
  define w1 where "w1 = w\<lparr>lastPlayerChunk := (Fin (coord_x cur), Fin (coord_z cur))\<rparr>"
  define st where "st = fold (\<lambda>dx. fold (\<lambda>dz. visit e cur dx dz) [- vd..vd]) [- vd..vd] ({}, w1)"
  have u: "update e pos w = fold (drop_unneeded (fst st)) (chunks (snd st)) (snd st)"
    using assms unfolding update_def st_def w1_def vd_def cur_def
    by (auto simp: Let_def case_prod_beta)
  have n: "fst st = chunkKey ` window cur vd"
    unfolding st_def loops_needed window_keys by simp
  have r: "resident (snd st) = chunkKey ` window cur vd \<union> resident w"
    unfolding st_def loops_resident window_keys by (simp add: w1_def)
  have "resident (update e pos w) = resident (snd st) - (resident (snd st) - fst st)"
    unfolding u sweep_resident by (simp add: resident_def)
  also have "\<dots> = chunkKey ` window cur vd"
    unfolding n r by blast
  finally show ?thesis
    by (simp add: cur_def vd_def)
qed

section \<open>The keys of the store name the coordinates\<close>

declare digits.simps [simp del]

lemma digit_inj: "a < 10 \<Longrightarrow> b < 10 \<Longrightarrow> digit a = digit b \<Longrightarrow> a = b"
proof -
  assume a: "a < 10" and b: "b < 10" and e: "digit a = digit b"
  from e have "of_char (char_of (48 + a) :: char) = (of_char (char_of (48 + b) :: char) :: nat)"
    by (simp add: digit_def)
  then have "(48 + a) mod 256 = (48 + b) mod 256"
    by (simp only: of_char_of)
  with a b show "a = b" by simp
qed

lemma digit_range: "d < 10 \<Longrightarrow> 48 \<le> (of_char (digit d) :: nat) \<and> (of_char (digit d) :: nat) \<le> 57"
  by (simp add: digit_def)

lemma digit_not_sep: "d < 10 \<Longrightarrow> digit d \<noteq> CHR '','' \<and> digit d \<noteq> CHR ''-''"
proof -
  assume d: "d < 10"
  have "(of_char (digit d) :: nat) \<noteq> of_char CHR '',''" "(of_char (digit d) :: nat) \<noteq> of_char CHR ''-''"
    using digit_range [OF d] by simp_all
  then show ?thesis by auto
qed

lemma digits_nonempty: "digits n \<noteq> []"
  by (subst digits.simps) simp

lemma digits_chars: "c \<in> set (digits n) \<Longrightarrow> c \<noteq> CHR '','' \<and> c \<noteq> CHR ''-''"
proof (induction n rule: digits.induct)
  case (1 n)
  show ?case
  proof (cases "n < 10")
    case True
    then show ?thesis
      using "1.prems" digit_not_sep [of n] by (subst (asm) digits.simps) simp
  next
    case False
    have m: "n mod 10 < 10" by simp
    from "1.prems" False have "c \<in> set (digits (n div 10)) \<or> c = digit (n mod 10)"
      by (subst (asm) digits.simps) auto
    then show ?thesis
      using "1.IH" [OF False] digit_not_sep [OF m] by auto
  qed
qed

lemma digits_inj: "digits m = digits n \<Longrightarrow> m = n"
proof (induction m arbitrary: n rule: digits.induct)
  case (1 m)
  show ?case
  proof (cases "m < 10")
    case True
    note m = this
    show ?thesis
    proof (cases "n < 10")
      case True
      with m "1.prems" show ?thesis
        by (simp add: digits.simps [of m] digits.simps [of n] digit_inj)
    next
      case False
      with m "1.prems" digits_nonempty [of "n div 10"] show ?thesis
        by (simp add: digits.simps [of m] digits.simps [of n])
    qed
  next
    case False
    note m = this
    show ?thesis
    proof (cases "n < 10")
      case True
      with m "1.prems" digits_nonempty [of "m div 10"] show ?thesis
        by (simp add: digits.simps [of m] digits.simps [of n])
    next
      case False
      with m "1.prems" have "digits (m div 10) = digits (n div 10)" and "digit (m mod 10) = digit (n mod 10)"
        by (simp_all add: digits.simps [of m] digits.simps [of n])
      then have "m div 10 = n div 10" and "m mod 10 = n mod 10"
        using "1.IH" [OF m] digit_inj [of "m mod 10" "n mod 10"] by simp_all
      then show ?thesis
        by (metis div_mult_mod_eq)
    qed
  qed
qed

lemma number_string_chars: "CHR '','' \<notin> set (number_string i)"
  using digits_chars by (auto simp: number_string_def)

lemma number_string_inj: "number_string i = number_string j \<Longrightarrow> i = j"
proof -
  assume e: "number_string i = number_string j"
  have hd: "\<And>n. hd (digits n) \<noteq> CHR ''-''"
    using digits_chars digits_nonempty by (metis hd_in_set)
  have ne: "\<And>n. digits n \<noteq> CHR ''-'' # t" for t
    using hd by (metis list.sel(1))
  show "i = j"
  proof (cases "i < 0")
    case True
    show ?thesis
    proof (cases "j < 0")
      case True
      with \<open>i < 0\<close> e have "nat (- i) = nat (- j)"
        by (simp add: number_string_def digits_inj)
      with True \<open>i < 0\<close> show ?thesis by simp
    next
      case False
      with \<open>i < 0\<close> e ne show ?thesis
        by (simp add: number_string_def) metis
    qed
  next
    case False
    show ?thesis
    proof (cases "j < 0")
      case True
      with \<open>\<not> i < 0\<close> e ne show ?thesis
        by (simp add: number_string_def)
    next
      case False
      with \<open>\<not> i < 0\<close> e have "nat i = nat j"
        by (simp add: number_string_def digits_inj)
      with False \<open>\<not> i < 0\<close> show ?thesis by simp
    qed
  qed
qed

lemma split_at_comma:
  assumes "a @ CHR '','' # b = a' @ CHR '','' # b'" and "CHR '','' \<notin> set a" and "CHR '','' \<notin> set a'"
  shows "a = a' \<and> b = b'"
  using assms
proof (induction a arbitrary: a')
  case Nil
  then show ?case by (cases a') auto
next
  case (Cons x a)
  then show ?case by (cases a') auto
qed

lemma chunkKey_inj: "chunkKey c = chunkKey d \<Longrightarrow> c = d"
proof -
  assume "chunkKey c = chunkKey d"
  then have "number_string (coord_x c) = number_string (coord_x d) \<and> number_string (coord_z c) = number_string (coord_z d)"
    unfolding chunkKey_def using number_string_chars
    by (intro split_at_comma) simp_all
  then have "coord_x c = coord_x d" and "coord_z c = coord_z d"
    by (auto dest: number_string_inj)
  then show "c = d"
    by simp
qed

section \<open>Properties of \<open>update\<close>\<close>

lemma visit_config: "config (snd (visit e cur dx dz st)) = config (snd st)"
  by (simp add: visit_def case_prod_beta Let_def loadChunk_fields)

lemma visit_last: "lastPlayerChunk (snd (visit e cur dx dz st)) = lastPlayerChunk (snd st)"
  by (simp add: visit_def case_prod_beta Let_def loadChunk_fields)

lemma loops_config:
  "config (snd (fold (\<lambda>dx. fold (\<lambda>dz. visit e cur dx dz) zs) xs st)) = config (snd st)"
  by (rule fold_keeps [where P = "\<lambda>s. config (snd s) = config (snd st)"])
     (rule fold_keeps, simp_all add: visit_config)

lemma loops_last:
  "lastPlayerChunk (snd (fold (\<lambda>dx. fold (\<lambda>dz. visit e cur dx dz) zs) xs st)) = lastPlayerChunk (snd st)"
  by (rule fold_keeps [where P = "\<lambda>s. lastPlayerChunk (snd s) = lastPlayerChunk (snd st)"])
     (rule fold_keeps, simp_all add: visit_last)

lemma sweep_last: "lastPlayerChunk (fold (drop_unneeded N) es w) = lastPlayerChunk w"
  by (induction es arbitrary: w) (auto simp: drop_unneeded_def unloadChunk_fields split: prod.splits)

lemma update_unfold:
  assumes "\<not> same_chunk w pos"
  shows "update e pos w =
     (let cur = worldToChunk w pos; vd = viewDistance (config w);
          st = fold (\<lambda>dx. fold (\<lambda>dz. visit e cur dx dz) [- vd..vd]) [- vd..vd]
                 ({}, w\<lparr>lastPlayerChunk := (Fin (coord_x cur), Fin (coord_z cur))\<rparr>)
      in fold (drop_unneeded (fst st)) (chunks (snd st)) (snd st))"
  using assms unfolding update_def same_chunk_def
  by (auto simp: Let_def case_prod_beta)

lemma update_config: "config (update e pos w) = config w"
proof (cases "same_chunk w pos")
  case True
  then show ?thesis by (simp add: same_chunk_def update_same)
next
  case False
  show ?thesis
    unfolding update_unfold [OF False] by (simp add: Let_def sweep_config loops_config)
qed

lemma update_last:
  "lastPlayerChunk (update e pos w)
     = (Fin (coord_x (worldToChunk w pos)), Fin (coord_z (worldToChunk w pos)))"
proof (cases "same_chunk w pos")
  case True
  then show ?thesis
    by (simp add: same_chunk_def update_same prod_eq_iff)
next
  case False
  show ?thesis
    unfolding update_unfold [OF False] by (simp add: Let_def sweep_last loops_last)
qed

lemma worldToChunk_update [simp]: "worldToChunk (update e p w) pos = worldToChunk w pos"
  by (simp add: worldToChunk_def update_config)

lemma update_covers:
  assumes "\<not> same_chunk w pos \<or> covers w pos"
  shows "covers (update e pos w) pos"
proof (cases "same_chunk w pos")
  case True
  with assms have "covers w pos" by blast
  moreover have "update e pos w = w"
    using True by (simp add: same_chunk_def update_same)
  ultimately show ?thesis by simp
next
  case False
  then have "resident (update e pos w) = chunkKey ` window (worldToChunk w pos) (viewDistance (config w))"
    unfolding same_chunk_def by (rule update_moved)
  then show ?thesis
    by (simp add: covers_def update_config)
qed

lemma covers_same_chunk:
  assumes "covers w q" and "worldToChunk w p = worldToChunk w q"
  shows "covers w p"
  using assms by (simp add: covers_def)

lemma updates_cover:
  assumes "covers w q"
    and "lastPlayerChunk w = (Fin (coord_x (worldToChunk w q)), Fin (coord_z (worldToChunk w q)))"
  shows "covers (fold (update e) ps w) (last (q # ps))"
  using assms
proof (induction ps arbitrary: w q)
  case Nil
  then show ?case by simp
next
  case (Cons p ps)
  have "\<not> same_chunk w p \<or> covers w p"
  proof (cases "same_chunk w p")
    case True
    then have "worldToChunk w p = worldToChunk w q"
      using Cons.prems(2) by (simp add: same_chunk_def)
    with Cons.prems(1) show ?thesis
      by (auto intro: covers_same_chunk)
  next
    case False
    then show ?thesis by simp
  qed
  then have "covers (update e p w) p"
    by (rule update_covers)
  then have "covers (fold (update e) ps (update e p w)) (last (p # ps))"
    by (rule Cons.IH) (simp add: update_last)
  then show ?case by simp
qed

lemma forceUpdate_covers: "covers (forceUpdate e p w) p"
proof -
  have "\<not> same_chunk (w\<lparr>lastPlayerChunk := (Infinity, Infinity)\<rparr>) p"
    by (simp add: same_chunk_def)
  then have "covers (update e p (w\<lparr>lastPlayerChunk := (Infinity, Infinity)\<rparr>)) p"
    by (intro update_covers) simp
  then show ?thesis
    by (simp add: forceUpdate_def)
qed

lemma forceUpdate_last:
  "lastPlayerChunk (forceUpdate e p w)
     = (Fin (coord_x (worldToChunk (forceUpdate e p w) p)), Fin (coord_z (worldToChunk (forceUpdate e p w) p)))"
  by (simp add: forceUpdate_def update_last)

lemma kept_refl: "kept c w w"
  by (simp add: kept_def)

lemma visit_kept:
  assumes "chunkKey c \<in> resident (snd st) \<and> kept c w (snd st)"
  shows "chunkKey c \<in> resident (snd (visit e cur dx dz st)) \<and> kept c w (snd (visit e cur dx dz st))"
proof (cases "has (chunks (snd st)) (chunkKey (offset cur dx dz))")
  case True
  then have "snd (visit e cur dx dz st) = snd st"
    by (simp add: visit_def case_prod_beta Let_def offset_def)
  with assms show ?thesis by simp
next
  case False
  then have v: "snd (visit e cur dx dz st) = loadChunk e (offset cur dx dz) (snd st)"
    by (simp add: visit_def case_prod_beta Let_def offset_def)
  from False assms have ne: "chunkKey c \<noteq> chunkKey (offset cur dx dz)"
    by (auto simp: has_resident)
  then have "c \<noteq> offset cur dx dz"
    by auto
  with assms ne show ?thesis
    unfolding v kept_def by (auto simp: loadChunk_fields loadChunk_other)
qed

lemma row_kept:
  assumes "chunkKey c \<in> resident (snd st) \<and> kept c w (snd st)"
  shows "chunkKey c \<in> resident (snd (fold (\<lambda>dz. visit e cur dx dz) zs st))
       \<and> kept c w (snd (fold (\<lambda>dz. visit e cur dx dz) zs st))"
  using assms by (rule fold_keeps [rotated]) (rule visit_kept)

lemma loops_kept:
  assumes "chunkKey c \<in> resident (snd st)" and "kept c w (snd st)"
  shows "kept c w (snd (fold (\<lambda>dx. fold (\<lambda>dz. visit e cur dx dz) zs) xs st))"
proof -
  from assms have "chunkKey c \<in> resident (snd st) \<and> kept c w (snd st)"
    by simp
  then have "chunkKey c \<in> resident (snd (fold (\<lambda>dx. fold (\<lambda>dz. visit e cur dx dz) zs) xs st))
       \<and> kept c w (snd (fold (\<lambda>dx. fold (\<lambda>dz. visit e cur dx dz) zs) xs st))"
    by (rule fold_keeps [rotated]) (rule row_kept)
  then show ?thesis by simp
qed

lemma drop_unneeded_kept:
  assumes "chunkKey c \<in> N" and "kept c w w'"
  shows "kept c w (drop_unneeded N entry w')"
proof (cases "fst entry \<in> N")
  case True
  with assms show ?thesis
    by (cases entry) (simp add: drop_unneeded_def)
next
  case False
  with assms(1) have "chunkKey c \<noteq> fst entry"
    by auto
  with assms(2) False show ?thesis
    unfolding kept_def
    by (cases entry) (auto simp: drop_unneeded_def unloadChunk_fields unloadChunk_other)
qed

lemma sweep_kept:
  assumes "chunkKey c \<in> N" and "kept c w w'"
  shows "kept c w (fold (drop_unneeded N) es w')"
  using assms(2) by (rule fold_keeps [rotated]) (simp add: drop_unneeded_kept assms(1))

lemma update_kept:
  assumes "chunkKey c \<in> resident w"
    and "c \<in> window (worldToChunk w pos) (viewDistance (config w))"
  shows "kept c w (update e pos w)"
proof (cases "same_chunk w pos")
  case True
  then show ?thesis
    by (simp add: same_chunk_def update_same kept_refl)
next
  case False
  define cur where "cur = worldToChunk w pos"
  define vd where "vd = viewDistance (config w)"
  define w1 where "w1 = w\<lparr>lastPlayerChunk := (Fin (coord_x cur), Fin (coord_z cur))\<rparr>"
  define st where "st = fold (\<lambda>dx. fold (\<lambda>dz. visit e cur dx dz) [- vd..vd]) [- vd..vd] ({}, w1)"
  have u: "update e pos w = fold (drop_unneeded (fst st)) (chunks (snd st)) (snd st)"
    unfolding update_unfold [OF False] st_def w1_def vd_def cur_def by (simp add: Let_def)
  have "kept c w w1"
    by (simp add: kept_def w1_def)
  then have "kept c w (snd st)"
    unfolding st_def using assms(1) by (intro loops_kept) (simp_all add: w1_def)
  moreover have "chunkKey c \<in> fst st"
    unfolding st_def loops_needed window_keys using assms(2) by (simp add: cur_def vd_def)
  ultimately show ?thesis
    unfolding u by (intro sweep_kept)
qed


lemma forceUpdate_config: "config (forceUpdate e p w) = config w"
  by (simp add: forceUpdate_def update_config)

lemma updates_config: "config (fold (update e) ps w) = config w"
  by (induction ps arbitrary: w) (simp_all add: update_config)

text \<open>Where no sum is rounded, the window of \<open>update\<close> is the square.\<close>

lemma window_square:
  assumes "\<bar>coord_x c\<bar> + vd < 2 ^ 53" and "\<bar>coord_z c\<bar> + vd < 2 ^ 53"
  shows "window c vd = square c vd"
proof -
  have "offset c dx dz = \<lparr>coord_x = coord_x c + dx, coord_z = coord_z c + dz\<rparr>"
    if "(dx, dz) \<in> {- vd..vd} \<times> {- vd..vd}" for dx dz
  proof -
    from that assms have "\<bar>coord_x c + dx\<bar> < 2 ^ 53" and "\<bar>coord_z c + dz\<bar> < 2 ^ 53"
      by auto
    then show ?thesis
      by (simp add: offset_def js_add_def fl_small)
  qed
  then show ?thesis
    unfolding window_def square_def by (intro image_cong) auto
qed

lemma square_0: "square c 0 = {c}"
  by (simp add: square_def)

lemma square_iff:
  "c' \<in> square c vd \<longleftrightarrow>
     \<bar>coord_x c' - coord_x c\<bar> \<le> vd \<and> \<bar>coord_z c' - coord_z c\<bar> \<le> vd"
proof
  assume "c' \<in> square c vd"
  then show "\<bar>coord_x c' - coord_x c\<bar> \<le> vd \<and> \<bar>coord_z c' - coord_z c\<bar> \<le> vd"
    by (auto simp: square_def)
next
  assume a: "\<bar>coord_x c' - coord_x c\<bar> \<le> vd \<and> \<bar>coord_z c' - coord_z c\<bar> \<le> vd"
  have "c' = \<lparr>coord_x = coord_x c + (coord_x c' - coord_x c),
              coord_z = coord_z c + (coord_z c' - coord_z c)\<rparr>"
    by simp
  moreover have "(coord_x c' - coord_x c, coord_z c' - coord_z c) \<in> {- vd..vd} \<times> {- vd..vd}"
    using a by auto
  ultimately show "c' \<in> square c vd"
    unfolding square_def by (metis (no_types, lifting) image_eqI case_prod_conv)
qed

lemma square_card:
  assumes "0 \<le> vd"
  shows "card (square c vd) = nat ((2 * vd + 1) * (2 * vd + 1))"
proof -
  have "inj_on (\<lambda>(dx, dz). \<lparr>coord_x = coord_x c + dx, coord_z = coord_z c + dz\<rparr>)
          ({- vd..vd} \<times> {- vd..vd})"
    by (auto simp: inj_on_def)
  then have "card (square c vd) = card ({- vd..vd} \<times> {- vd..vd})"
    unfolding square_def by (rule card_image)
  also have "\<dots> = nat (2 * vd + 1) * nat (2 * vd + 1)"
    using assms by (simp add: card_cartesian_product)
  finally show ?thesis
    using assms by (simp add: nat_mult_distrib)
qed

lemma covers_settled:
  assumes "covers w pos" and "in_range w pos"
  shows "settled w pos"
proof -
  have r: "resident w = chunkKey ` square (worldToChunk w pos) (viewDistance (config w))"
    using assms window_square [of "worldToChunk w pos" "viewDistance (config w)"]
    by (simp add: covers_def in_range_def)
  have "snapshot w = square (worldToChunk w pos) (viewDistance (config w))"
    unfolding snapshot_def r by (auto dest: chunkKey_inj)
  with r show ?thesis
    by (simp add: settled_def)
qed

lemma in_range_config:
  assumes "config w' = config w"
  shows "in_range w' pos = in_range w pos"
  using assms by (simp add: in_range_def worldToChunk_def)

lemma worldToChunk_eval:
  assumes "chunkSize (config w) = cs"
    and "\<lfloor>fl_real (px / cs)\<rfloor> = a" and "\<lfloor>fl_real (pz / cs)\<rfloor> = b"
  shows "worldToChunk w (px, py, pz) = \<lparr>coord_x = a, coord_z = b\<rparr>"
  using assms by (simp add: worldToChunk_def)

lemma list_all_last:
  assumes "list_all P (x # xs)"
  shows "P (last (x # xs))"
  using assms by (induction xs arbitrary: x) auto

section \<open>Properties of the generator\<close>

lemma wallThreshold_distance:
  "wallThreshold cfg c gx gz = 0.1 - min (origin_distance cfg c / 100 * 0.02) 0.15"
  by (simp add: wallThreshold_def origin_distance_def Let_def)

lemma origin_distance_eq:
  "origin_distance cfg c
     = \<bar>chunkSize cfg\<bar> * sqrt (real_of_int (coord_x c * coord_x c + coord_z c * coord_z c))"
proof -
  have "worldX cfg c * worldX cfg c + worldZ cfg c * worldZ cfg c
      = (chunkSize cfg * chunkSize cfg) * real_of_int (coord_x c * coord_x c + coord_z c * coord_z c)"
    by (simp add: worldX_def worldZ_def algebra_simps)
  then show ?thesis
    by (simp add: origin_distance_def real_sqrt_mult)
qed

lemma generate_textures:
  "generate (e\<lparr>createWallTexture := a, createFloorTexture := b, createCeilingTexture := d\<rparr>) cfg c
     = generate e cfg c"
  by (simp add: generate_def)

lemma Chunk_new_fst:
  "fst (Chunk_new e st c cfg) = \<lparr>coord = c, chunk_config = cfg, chunk_mesh = generate e cfg c\<rparr>"
  by (simp add: Chunk_new_def Let_def)

section \<open>Properties of the relay\<close>

lemma on_move_present:
  assumes "map_of (players st) sid = Some p"
  shows "on_move sid pos rot now st =
     (let p' = p\<lparr>position := pos, rotation := rot\<rparr>;
          st' = st\<lparr>players := AList.update sid p' (players st)\<rparr>
      in if BROADCAST_INTERVAL < now - lastBroadcast st
         then (st'\<lparr>lastBroadcast := now\<rparr>, [To_others sid (Player_moved p')])
         else (st', []))"
  using assms by (simp add: on_move_def Let_def)

lemma on_move_absent:
  assumes "map_of (players st) sid = None"
  shows "on_move sid pos rot now st = (st, [])"
  using assms by (simp add: on_move_def)

lemma handle_step:
  "(moved_at ev (snd (handle ev st)) = [] \<and> lastBroadcast (fst (handle ev st)) = lastBroadcast st)
   \<or> (\<exists>now. moved_at ev (snd (handle ev st)) = [now] \<and> lastBroadcast (fst (handle ev st)) = now
          \<and> BROADCAST_INTERVAL < now - lastBroadcast st)"
proof (cases ev)
  case (Connection sid)
  then show ?thesis by (simp add: on_connection_def Let_def)
next
  case (Move sid pos rot now)
  show ?thesis
  proof (cases "map_of (players st) sid")
    case None
    then show ?thesis
      unfolding Move by (simp add: on_move_absent)
  next
    case (Some p)
    then show ?thesis
      unfolding Move by (simp add: on_move_present Let_def)
  qed
next
  case (Disconnect sid)
  then show ?thesis by (simp add: on_disconnect_def)
next
  case Interval
  then show ?thesis by (simp add: on_interval_def)
qed

lemma spaced_Cons:
  assumes "spaced ts" and "list_all (\<lambda>t. BROADCAST_INTERVAL < t - a) ts"
  shows "spaced (a # ts)"
  using assms by (cases ts) simp_all

lemma later_all:
  assumes "list_all (\<lambda>t. BROADCAST_INTERVAL < t - b) ts" and "BROADCAST_INTERVAL < b - a"
  shows "list_all (\<lambda>t. BROADCAST_INTERVAL < t - a) ts"
  using assms by (induction ts) (auto simp: BROADCAST_INTERVAL_def)

lemma broadcast_times_spaced:
  "spaced (broadcast_times evs st)
   \<and> list_all (\<lambda>t. BROADCAST_INTERVAL < t - lastBroadcast st) (broadcast_times evs st)"
proof (induction evs arbitrary: st)
  case Nil
  show ?case by simp
next
  case (Cons ev evs)
  let ?st' = "fst (handle ev st)"
  let ?rest = "broadcast_times evs ?st'"
  have eq: "broadcast_times (ev # evs) st = moved_at ev (snd (handle ev st)) @ ?rest"
    by (simp add: case_prod_beta)
  have ih: "spaced ?rest" "list_all (\<lambda>t. BROADCAST_INTERVAL < t - lastBroadcast ?st') ?rest"
    using Cons.IH [of ?st'] by simp_all
  from handle_step [of ev st] show ?case
  proof
    assume "moved_at ev (snd (handle ev st)) = [] \<and> lastBroadcast ?st' = lastBroadcast st"
    with ih show ?thesis
      unfolding eq by simp
  next
    assume "\<exists>now. moved_at ev (snd (handle ev st)) = [now] \<and> lastBroadcast ?st' = now
          \<and> BROADCAST_INTERVAL < now - lastBroadcast st"
    then obtain now where m: "moved_at ev (snd (handle ev st)) = [now]"
      and l: "lastBroadcast ?st' = now" and g: "BROADCAST_INTERVAL < now - lastBroadcast st"
      by blast
    have a: "list_all (\<lambda>t. BROADCAST_INTERVAL < t - now) ?rest"
      using ih(2) unfolding l .
    then have "spaced (now # ?rest)"
      using ih(1) by (intro spaced_Cons)
    moreover have "list_all (\<lambda>t. BROADCAST_INTERVAL < t - lastBroadcast st) ?rest"
      using a g by (rule later_all)
    ultimately show ?thesis
      unfolding eq m using g by simp
  qed
qed

section \<open>The claims\<close>

text \<open>
  C10, as stated. The claim: for every integer chunk coordinate and every integer seed,
  \<open>hashCoords (x + 1) (z - 31) seed = hashCoords x z seed\<close>. It fails where the
  accumulator leaves the range in which doubles are exact: with the seed \<open>2 ^ 54\<close> the
  coordinates \<open>(1, -31)\<close> and \<open>(0, 0)\<close> hash to \<open>2147483616\<close> and to \<open>0\<close>.
\<close>

theorem hashCoords_line_counterexample:
  "hashCoords (0 + 1) (0 - 31) 18014398509481984 \<noteq> hashCoords 0 0 18014398509481984"
  by code_simp

text \<open>
  C10, amended. For coordinates and seeds of magnitude at most \<open>2 ^ 50\<close> the hash is
  \<open>961 * seed + 31 * x + z\<close> reduced modulo \<open>2 ^ 31\<close>, so that \<open>(x + 1, z - 31)\<close> and
  \<open>(x, z)\<close> receive the same chunk seed.
\<close>

theorem hashCoords_line:
  assumes "\<bar>x\<bar> < 2 ^ 50" and "\<bar>z\<bar> \<le> 2 ^ 50 - 31" and "\<bar>s\<bar> \<le> 2 ^ 50"
  shows "hashCoords x z s = (961 * s + 31 * x + z) mod 2 ^ 31
       \<and> hashCoords (x + 1) (z - 31) s = hashCoords x z s"
  using hash_line [OF assms] hashCoords_exact [of x z s] assms by simp

theorem hashCoords_line_witness:
  "hashCoords 3 7 42 = 40462 \<and> hashCoords (3 + 1) (7 - 31) 42 = hashCoords 3 7 42"
  using hashCoords_line [of 3 7 42] by simp

text \<open>
  C4, as stated. The claim: every call sets the state to
  \<open>(seed * 1103515245 + 12345) mod 2 ^ 31\<close>. The product of a 31-bit state and the
  multiplier needs up to 61 bits, and a double keeps 53: from the state \<open>10000000\<close> the
  source reaches \<open>634602680\<close>, not \<open>634602681\<close>.
\<close>

theorem random_recurrence_counterexample:
  "snd (random (seededRandom 10000000)) \<noteq> (10000000 * 1103515245 + 12345) mod 2 ^ 31"
  by code_simp

text \<open>
  C4, amended. From a state \<open>s\<close> of 31 bits a call moves to the state
  \<open>fl (fl (s * 1103515245) + 12345) mod 2 ^ 31\<close>, which is
  \<open>(s * 1103515245 + 12345) mod 2 ^ 31\<close> as long as \<open>s * 1103515245 + 12345\<close> stays below
  \<open>2 ^ 53\<close>; it returns the new state divided by \<open>2 ^ 31 - 1\<close>; the new state has 31 bits
  again; and each of the first \<open>n\<close> values a generator returns, for every \<open>n\<close>, is at least
  \<open>0\<close> and less than \<open>1\<close>. The values are a function of the construction seed and the
  number of calls.
\<close>

theorem random_recurrence:
  assumes "0 \<le> s" and "s < 2 ^ 31"
  shows "snd (random (seededRandom s)) = fl (fl (s * 1103515245) + 12345) mod 2 ^ 31
       \<and> (s * 1103515245 + 12345 < 2 ^ 53 \<longrightarrow>
            snd (random (seededRandom s)) = (s * 1103515245 + 12345) mod 2 ^ 31)
       \<and> fst (random (seededRandom s)) = real_of_int (snd (random (seededRandom s))) / (2 ^ 31 - 1)
       \<and> 0 \<le> snd (random (seededRandom s)) \<and> snd (random (seededRandom s)) < 2 ^ 31
       \<and> list_all (\<lambda>v. 0 \<le> v \<and> v < 1) (fst (calls n (seededRandom s)))"
proof -
  have "next_seed s = fl (fl (s * 1103515245) + 12345) mod 2 ^ 31"
    by (simp add: next_seed_def js_and_mask31 js_add_def js_mul_def)
  moreover have "s * 1103515245 + 12345 < 2 ^ 53 \<longrightarrow>
      next_seed s = (s * 1103515245 + 12345) mod 2 ^ 31"
    using next_seed_exact [OF assms(1)] by blast
  moreover have "fst (random s) = real_of_int (next_seed s) / (2 ^ 31 - 1)"
    by (simp add: random_fst)
  ultimately show ?thesis
    using next_seed_range [of s] calls_unit [OF assms, of n]
    by (simp add: seededRandom_def random_snd)
qed

theorem random_recurrence_witness:
  "snd (random (seededRandom 42)) = 1250496027
   \<and> fst (random (seededRandom 42)) = 1250496027 / 2147483647
   \<and> list_all (\<lambda>v. 0 \<le> v \<and> v < 1) (fst (calls 3 (seededRandom 42)))"
  using random_recurrence [of 42 3] by simp


text \<open>
  C2, as stated. The claim: after any call of \<open>update\<close>, also the first one on a fresh
  world that \<open>forceUpdate\<close> never touched, the store holds exactly the window around the
  chunk of the player. A fresh world records the chunk \<open>(0, 0)\<close> and holds nothing; an
  \<open>update\<close> for a player inside chunk \<open>(0, 0)\<close> returns at the guard and the store stays
  empty.
\<close>

theorem update_window_counterexample:
  "\<not> settled (update flat_env (1, 1.6, 1) (World_new DEFAULT_CONFIG)) (1, 1.6, 1)"
proof -
  let ?w = "World_new DEFAULT_CONFIG :: unit World"
  have f: "\<lfloor>fl_real (1 / 32)\<rfloor> = 0"
    by (rule floor_fl_real) simp_all
  have c: "worldToChunk ?w (1, y, 1) = \<lparr>coord_x = 0, coord_z = 0\<rparr>" for y
    by (rule worldToChunk_eval [where cs = 32]) (simp_all add: f World_new_def DEFAULT_CONFIG_def)
  have l: "lastPlayerChunk ?w = (Fin 0, Fin 0)"
    by (simp add: World_new_def)
  have "update flat_env (1, 1.6, 1) ?w = ?w"
    by (rule update_same) (simp_all add: c l)
  moreover have "resident ?w = {}"
    by (simp add: resident_def World_new_def)
  moreover have "\<lparr>coord_x = 0, coord_z = 0\<rparr> \<in> square (worldToChunk ?w (1, 1.6, 1)) (viewDistance (config ?w))"
    unfolding c square_iff by (simp add: World_new_def DEFAULT_CONFIG_def)
  ultimately show ?thesis
    unfolding settled_def by auto
qed

text \<open>
  C2, amended. With a positive chunk size and a view distance of at least \<open>0\<close>, and for
  player positions whose chunk (the floor of the double quotient of position and chunk
  size) lies so that the square around it stays below \<open>2 ^ 53\<close> in magnitude: a call of
  \<open>update\<close> that finds the player in another chunk than the recorded one leaves the
  store holding exactly the square of side \<open>2 * viewDistance + 1\<close> around the chunk of
  the player, whatever the store held before; so does \<open>forceUpdate\<close>, from any world;
  and so does every further \<open>update\<close> after a \<open>forceUpdate\<close>, for the position of the
  last call. The square has \<open>(2 * viewDistance + 1)\<close> by \<open>(2 * viewDistance + 1)\<close>
  coordinates.
\<close>

theorem update_window:
  assumes "0 < chunkSize (config w)" and "0 \<le> viewDistance (config w)"
    and "list_all (in_range w) (pos # p # ps)"
  shows "(\<not> same_chunk w pos \<longrightarrow> settled (update e pos w) pos)
       \<and> settled (forceUpdate e p w) p
       \<and> settled (fold (update e) ps (forceUpdate e p w)) (last (p # ps))
       \<and> card (square (worldToChunk w pos) (viewDistance (config w)))
           = nat ((2 * viewDistance (config w) + 1) * (2 * viewDistance (config w) + 1))"
proof -
  from assms(3) have r: "in_range w pos" "in_range w p" and rs: "list_all (in_range w) (p # ps)"
    by simp_all
  have rl: "in_range w (last (p # ps))"
    using rs by (rule list_all_last)
  have "covers (fold (update e) ps (forceUpdate e p w)) (last (p # ps))"
    by (rule updates_cover [OF forceUpdate_covers forceUpdate_last])
  moreover have "in_range (fold (update e) ps (forceUpdate e p w)) (last (p # ps))"
    using rl by (simp only: in_range_config [OF trans [OF updates_config forceUpdate_config]])
  ultimately have a: "settled (fold (update e) ps (forceUpdate e p w)) (last (p # ps))"
    by (rule covers_settled)
  have "in_range (forceUpdate e p w) p"
    using r(2) by (simp only: in_range_config [OF forceUpdate_config])
  with forceUpdate_covers have b: "settled (forceUpdate e p w) p"
    by (rule covers_settled)
  have i: "in_range (update e pos w) pos"
    using r(1) by (simp only: in_range_config [OF update_config])
  have c: "\<not> same_chunk w pos \<longrightarrow> settled (update e pos w) pos"
  proof
    assume "\<not> same_chunk w pos"
    then have "covers (update e pos w) pos"
      by (intro update_covers) simp
    then show "settled (update e pos w) pos"
      using i by (rule covers_settled)
  qed
  show ?thesis
    using a b c square_card [OF assms(2), of "worldToChunk w pos"] by simp
qed

theorem update_window_witness:
  "resident (forceUpdate flat_env (0, 1.6, 0)
      (World_new (DEFAULT_CONFIG\<lparr>viewDistance := 0, seed := 7\<rparr>))) = {''0,0''}
   \<and> resident (fold (update flat_env) [(40, 1.6, 0)]
      (forceUpdate flat_env (0, 1.6, 0)
         (World_new (DEFAULT_CONFIG\<lparr>viewDistance := 0, seed := 7\<rparr>)))) = {''1,0''}
   \<and> resident (update flat_env (40, 1.6, 0)
      (World_new (DEFAULT_CONFIG\<lparr>viewDistance := 0, seed := 7\<rparr>))) = {''1,0''}"
proof -
  let ?w = "World_new (DEFAULT_CONFIG\<lparr>viewDistance := 0, seed := 7\<rparr>) :: unit World"
  let ?w1 = "forceUpdate flat_env (0, 1.6, 0) ?w"
  let ?w2 = "fold (update flat_env) [(40, 1.6, 0)] ?w1"
  let ?w3 = "update flat_env (40, 1.6, 0) ?w"
  have c: "config ?w = DEFAULT_CONFIG\<lparr>viewDistance := 0, seed := 7\<rparr>"
    by (simp add: World_new_def)
  have cs: "chunkSize (config w') = 32" if "config w' = config ?w" for w' :: "unit World"
    using that by (simp add: World_new_def DEFAULT_CONFIG_def)
  have k0: "chunkKey \<lparr>coord_x = 0, coord_z = 0\<rparr> = ''0,0''"
    by code_simp
  have k1: "chunkKey \<lparr>coord_x = 1, coord_z = 0\<rparr> = ''1,0''"
    by code_simp
  have f0: "\<lfloor>fl_real (0 / 32)\<rfloor> = 0"
    by (simp add: floor_fl_real_0)
  have f1: "\<lfloor>fl_real (40 / 32)\<rfloor> = 1"
    by (rule floor_fl_real) simp_all
  have t0: "worldToChunk w' (0, y, 0) = \<lparr>coord_x = 0, coord_z = 0\<rparr>"
    if "config w' = config ?w" for w' :: "unit World" and y
    using cs [OF that] f0 f0 by (rule worldToChunk_eval)
  have t1: "worldToChunk w' (40, y, 0) = \<lparr>coord_x = 1, coord_z = 0\<rparr>"
    if "config w' = config ?w" for w' :: "unit World" and y
    using cs [OF that] f1 f0 by (rule worldToChunk_eval)
  have u0: "worldToChunk ?w (0, 1.6, 0) = \<lparr>coord_x = 0, coord_z = 0\<rparr>"
    by (rule t0) simp
  have u1: "worldToChunk ?w (40, 1.6, 0) = \<lparr>coord_x = 1, coord_z = 0\<rparr>"
    by (rule t1) simp
  have v: "viewDistance (config ?w) = 0"
    by (simp add: World_new_def)
  have l: "lastPlayerChunk ?w = (Fin 0, Fin 0)"
    by (simp add: World_new_def)
  have "\<not> same_chunk ?w (40, 1.6, 0)"
    unfolding same_chunk_def u1 l by simp
  moreover have "0 < chunkSize (config ?w)" and "0 \<le> viewDistance (config ?w)"
    unfolding c by (simp_all add: DEFAULT_CONFIG_def)
  moreover have "in_range ?w (0, 1.6, 0)" and "in_range ?w (40, 1.6, 0)"
    unfolding in_range_def u0 u1 v by simp_all
  then have "list_all (in_range ?w) [(40, 1.6, 0), (0, 1.6, 0), (40, 1.6, 0)]"
    by simp
  ultimately have s: "settled ?w1 (0, 1.6, 0)" "settled ?w2 (last [(0, 1.6, 0), (40, 1.6, 0)])"
      "settled ?w3 (40, 1.6, 0)"
    using update_window [of ?w "(40, 1.6, 0)" "(0, 1.6, 0)" "[(40, 1.6, 0)]" flat_env]
    by simp_all
  have "worldToChunk ?w1 (0, y, 0) = \<lparr>coord_x = 0, coord_z = 0\<rparr>" for y
    by (rule t0) (simp add: forceUpdate_config)
  moreover have "worldToChunk ?w2 (40, y, 0) = \<lparr>coord_x = 1, coord_z = 0\<rparr>" for y
    by (rule t1) (simp only: updates_config forceUpdate_config)
  moreover have "worldToChunk ?w3 (40, y, 0) = \<lparr>coord_x = 1, coord_z = 0\<rparr>" for y
    by (rule t1) (simp add: update_config)
  moreover have "viewDistance (config ?w1) = 0" and "viewDistance (config ?w2) = 0"
      and "viewDistance (config ?w3) = 0"
    unfolding updates_config forceUpdate_config update_config c by simp_all
  ultimately show ?thesis
    using s by (simp add: settled_def square_0 k0 k1)
qed

text \<open>
  C5. When the chunk of the player is the recorded chunk, \<open>update\<close> returns the world as
  it was: nothing is added to the trace of loads and unloads, and the store and the
  recorded chunk are the same.
\<close>

theorem update_same_chunk:
  assumes "0 < chunkSize (config w)" and "same_chunk w pos"
  shows "update e pos w = w
       \<and> trace (update e pos w) = trace w
       \<and> chunks (update e pos w) = chunks w
       \<and> lastPlayerChunk (update e pos w) = lastPlayerChunk w"
  using assms(2) by (simp add: same_chunk_def update_same)

theorem update_same_chunk_witness:
  "update flat_env (31.9, 1.6, 31.9) (World_new DEFAULT_CONFIG) = World_new DEFAULT_CONFIG
   \<and> trace (update flat_env (31.9, 1.6, 31.9) (World_new DEFAULT_CONFIG)) = []"
proof -
  let ?w = "World_new DEFAULT_CONFIG :: unit World"
  have f: "\<lfloor>fl_real (31.9 / 32)\<rfloor> = 0"
    by (rule floor_fl_real) simp_all
  have a: "0 < chunkSize (config ?w)"
    by (simp add: World_new_def DEFAULT_CONFIG_def)
  have "worldToChunk ?w (31.9, 1.6, 31.9) = \<lparr>coord_x = 0, coord_z = 0\<rparr>"
    by (rule worldToChunk_eval [OF _ f f]) (simp add: World_new_def DEFAULT_CONFIG_def)
  then have b: "same_chunk ?w (31.9, 1.6, 31.9)"
    unfolding same_chunk_def by (simp add: World_new_def)
  show ?thesis
    using update_same_chunk [OF a b, of flat_env] by (simp add: World_new_def)
qed

text \<open>
  C6. During \<open>update\<close>, for a coordinate that is resident and lies in the window around
  the chunk of the player, the entry of the store is the same chunk afterwards, and the
  operations the call adds to the trace contain no \<open>Load\<close> of that coordinate: the
  constructor does not run for it.
\<close>

theorem update_keeps_resident:
  assumes "0 < chunkSize (config w)"
    and "chunkKey c \<in> resident w"
    and "c \<in> window (worldToChunk w pos) (viewDistance (config w))"
  shows "map_of (chunks (update e pos w)) (chunkKey c) = map_of (chunks w) (chunkKey c)
       \<and> (\<exists>ops. trace (update e pos w) = trace w @ ops \<and> Load c \<notin> set ops)"
  using update_kept [OF assms(2,3), of e] by (simp add: kept_def)

theorem update_keeps_resident_witness:
  "map_of (chunks (update flat_env (40, 1.6, 0)
       (loadChunk flat_env \<lparr>coord_x = 0, coord_z = 0\<rparr> (World_new DEFAULT_CONFIG))))
       (chunkKey \<lparr>coord_x = 0, coord_z = 0\<rparr>)
   = map_of (chunks (loadChunk flat_env \<lparr>coord_x = 0, coord_z = 0\<rparr> (World_new DEFAULT_CONFIG)))
       (chunkKey \<lparr>coord_x = 0, coord_z = 0\<rparr>)"
proof -
  let ?c = "\<lparr>coord_x = 0, coord_z = 0\<rparr>"
  let ?w = "loadChunk flat_env ?c (World_new DEFAULT_CONFIG)"
  have a: "0 < chunkSize (config ?w)"
    by (simp add: loadChunk_fields World_new_def DEFAULT_CONFIG_def)
  have b: "chunkKey ?c \<in> resident ?w"
    by (simp add: loadChunk_fields)
  have f0: "\<lfloor>fl_real (0 / 32)\<rfloor> = 0"
    by (simp add: floor_fl_real_0)
  have f1: "\<lfloor>fl_real (40 / 32)\<rfloor> = 1"
    by (rule floor_fl_real) simp_all
  have t: "worldToChunk ?w (40, 1.6, 0) = \<lparr>coord_x = 1, coord_z = 0\<rparr>"
    by (rule worldToChunk_eval [OF _ f1 f0])
       (simp add: loadChunk_fields World_new_def DEFAULT_CONFIG_def)
  have v: "viewDistance (config ?w) = 3"
    by (simp add: loadChunk_fields World_new_def DEFAULT_CONFIG_def)
  have "window \<lparr>coord_x = 1, coord_z = 0\<rparr> 3 = square \<lparr>coord_x = 1, coord_z = 0\<rparr> 3"
    by (rule window_square) simp_all
  then have c: "?c \<in> window (worldToChunk ?w (40, 1.6, 0)) (viewDistance (config ?w))"
    unfolding t v by (simp add: square_iff)
  show ?thesis
    using update_keeps_resident [OF a b c, of flat_env] by simp
qed

text \<open>
  C9. \<open>unloadChunk\<close> has no failing branch. For a key that is not resident it changes
  nothing but the trace, which records the request; a second \<open>unloadChunk\<close> of a key
  leaves the store as the first one left it, again changing the trace alone.
\<close>

theorem unloadChunk_idempotent:
  "(key \<notin> resident w \<longrightarrow> unloadChunk key ch w = w\<lparr>trace := trace w @ [Unload key]\<rparr>)
   \<and> chunks (unloadChunk key ch' (unloadChunk key ch w)) = chunks (unloadChunk key ch w)
   \<and> unloadChunk key ch' (unloadChunk key ch w)
       = (unloadChunk key ch w)\<lparr>trace := trace (unloadChunk key ch w) @ [Unload key]\<rparr>"
  by (simp add: unloadChunk_def resident_def delete_idem)

theorem unloadChunk_idempotent_witness:
  "unloadChunk ''9,9''
     (fst (Chunk_new flat_env (Chunk_statics (World_new DEFAULT_CONFIG))
            \<lparr>coord_x = 9, coord_z = 9\<rparr> DEFAULT_CONFIG))
     (World_new DEFAULT_CONFIG :: unit World)
   = (World_new DEFAULT_CONFIG)\<lparr>trace := [Unload ''9,9'']\<rparr>"
  using unloadChunk_idempotent [of "''9,9''" "World_new DEFAULT_CONFIG :: unit World"]
  by (simp add: resident_def World_new_def)

text \<open>
  C1. A chunk is a function of its coordinate, the configuration and the noise package
  alone: the constructor returns the same chunk, with the same objects in the same order
  and the same numbers in them, whatever the class-level material slots hold when it
  runs and whatever textures it would paint, in particular when it runs a second time on
  the slots the first run left.
\<close>

theorem generate_deterministic:
  "fst (Chunk_new e st c cfg) = \<lparr>coord = c, chunk_config = cfg, chunk_mesh = generate e cfg c\<rparr>
   \<and> fst (Chunk_new (e\<lparr>createWallTexture := a, createFloorTexture := b, createCeilingTexture := d\<rparr>) st' c cfg)
       = fst (Chunk_new e st c cfg)
   \<and> fst (Chunk_new (e\<lparr>createWallTexture := a, createFloorTexture := b, createCeilingTexture := d\<rparr>)
            (snd (Chunk_new e st c cfg)) c cfg)
       = fst (Chunk_new e st c cfg)"
  by (simp add: Chunk_new_fst generate_textures)

text \<open>
  C3, as stated. The claim: for every cell the threshold is \<open>0.1 - min (d * 0.02, 0.15)\<close>
  with \<open>d\<close> the distance of the cell's own world position from the origin. For the cell
  \<open>(0, 0)\<close> of chunk \<open>(1, 0)\<close> under the default configuration that distance is \<open>32\<close>
  and the formula gives \<open>-0.05\<close>; the generator divides the distance by \<open>100\<close> first and
  uses \<open>0.0936\<close>.
\<close>

theorem wallThreshold_counterexample:
  "wallThreshold DEFAULT_CONFIG \<lparr>coord_x = 1, coord_z = 0\<rparr> 0 0
     \<noteq> spec_wallThreshold DEFAULT_CONFIG \<lparr>coord_x = 1, coord_z = 0\<rparr> 0 0"
proof -
  have r: "sqrt (1024 :: real) = 32"
    by (rule real_sqrt_unique) simp_all
  have "wallThreshold DEFAULT_CONFIG \<lparr>coord_x = 1, coord_z = 0\<rparr> 0 0 = 0.0936"
    by (simp add: wallThreshold_def worldX_def worldZ_def DEFAULT_CONFIG_def r)
  moreover have "spec_wallThreshold DEFAULT_CONFIG \<lparr>coord_x = 1, coord_z = 0\<rparr> 0 0 = - 0.05"
    by (simp add: spec_wallThreshold_def worldX_def worldZ_def DEFAULT_CONFIG_def r)
  ultimately show ?thesis
    by simp
qed

text \<open>
  C3, amended. For every cell of every chunk the threshold is
  \<open>0.1 - min (D / 100 * 0.02, 0.15)\<close>, where \<open>D\<close> is the distance from the world origin
  of the chunk's own origin \<open>(coord.x * chunkSize, coord.z * chunkSize)\<close>; it is the same
  for all cells of a chunk.
\<close>

theorem wallThreshold_of_chunk:
  "wallThreshold cfg c gx gz
     = 0.1 - min (\<bar>chunkSize cfg\<bar>
                    * sqrt (real_of_int (coord_x c * coord_x c + coord_z c * coord_z c))
                    / 100 * 0.02) 0.15
   \<and> wallThreshold cfg c gx gz = wallThreshold cfg c gx' gz'"
  by (simp add: wallThreshold_distance origin_distance_eq)

text \<open>
  C7. The threshold does not increase with the distance from the world origin that the
  generator uses: of two cells, the one whose distance is at least the other's has a
  threshold no higher; and no threshold is below \<open>-0.05\<close>.
\<close>

theorem wallThreshold_antimono:
  assumes "origin_distance cfg1 c1 \<le> origin_distance cfg2 c2"
  shows "wallThreshold cfg2 c2 gx2 gz2 \<le> wallThreshold cfg1 c1 gx1 gz1
       \<and> - 0.05 \<le> wallThreshold cfg1 c1 gx1 gz1"
proof -
  have "min (origin_distance cfg1 c1 / 100 * 0.02) 0.15
      \<le> min (origin_distance cfg2 c2 / 100 * 0.02) 0.15"
    using assms by (intro min.mono) simp_all
  then show ?thesis
    by (simp add: wallThreshold_distance)
qed

theorem wallThreshold_antimono_witness:
  "origin_distance DEFAULT_CONFIG \<lparr>coord_x = 0, coord_z = 0\<rparr>
     \<le> origin_distance DEFAULT_CONFIG \<lparr>coord_x = 3, coord_z = 4\<rparr>
   \<and> wallThreshold DEFAULT_CONFIG \<lparr>coord_x = 3, coord_z = 4\<rparr> 0 0
     \<le> wallThreshold DEFAULT_CONFIG \<lparr>coord_x = 0, coord_z = 0\<rparr> 0 0
   \<and> - 0.05 \<le> wallThreshold DEFAULT_CONFIG \<lparr>coord_x = 0, coord_z = 0\<rparr> 0 0"
proof -
  have h: "origin_distance DEFAULT_CONFIG \<lparr>coord_x = 0, coord_z = 0\<rparr>
     \<le> origin_distance DEFAULT_CONFIG \<lparr>coord_x = 3, coord_z = 4\<rparr>"
    by (simp add: origin_distance_def worldX_def worldZ_def DEFAULT_CONFIG_def)
  show ?thesis
    using h wallThreshold_antimono [OF h, of 0 0 0 0] by simp
qed

text \<open>
  C8. A \<open>move\<close> from a connected player always stores the position and the rotation it
  carries. It is broadcast as \<open>player_moved\<close> exactly when the reading of the clock is
  more than 50 ms after \<open>lastBroadcast\<close>, the one timestamp all connections share, which
  then becomes that reading; otherwise nothing is emitted and the timestamp stays. In
  every run of the server, from any state, the readings at which \<open>player_moved\<close> went out
  are each more than 50 ms after the one before, and after the timestamp the run began
  with.
\<close>

theorem move_throttled:
  assumes "map_of (players st) sid = Some p"
  shows "map_of (players (fst (on_move sid pos rot now st))) sid
           = Some (p\<lparr>position := pos, rotation := rot\<rparr>)
       \<and> snd (on_move sid pos rot now st)
           = (if 50 < now - lastBroadcast st
              then [To_others sid (Player_moved (p\<lparr>position := pos, rotation := rot\<rparr>))] else [])
       \<and> lastBroadcast (fst (on_move sid pos rot now st))
           = (if 50 < now - lastBroadcast st then now else lastBroadcast st)
       \<and> spaced (broadcast_times evs st)
       \<and> list_all (\<lambda>t. 50 < t - lastBroadcast st) (broadcast_times evs st)"
  using broadcast_times_spaced [of evs st]
  by (simp add: on_move_present [OF assms] Let_def update_conv' BROADCAST_INTERVAL_def)

theorem move_throttled_witness:
  "snd (on_move ''a'' (1, 1.6, 1) 0 1000
          (fst (on_connection ''b'' (fst (on_connection ''a'' server_start)))))
     = [To_others ''a'' (Player_moved \<lparr>player_id = ''a'', position = (1, 1.6, 1), rotation = 0\<rparr>)]
   \<and> broadcast_times
        [Move ''a'' (1, 1.6, 1) 0 1000, Move ''b'' (2, 1.6, 2) 0 1030,
         Move ''a'' (3, 1.6, 3) 0 1050, Move ''b'' (4, 1.6, 4) 0 1051]
        (fst (on_connection ''b'' (fst (on_connection ''a'' server_start))))
     = [1000, 1051]
   \<and> spaced (broadcast_times
        [Move ''a'' (1, 1.6, 1) 0 1000, Move ''b'' (2, 1.6, 2) 0 1030,
         Move ''a'' (3, 1.6, 3) 0 1050, Move ''b'' (4, 1.6, 4) 0 1051]
        (fst (on_connection ''b'' (fst (on_connection ''a'' server_start)))))"
proof -
  let ?st = "fst (on_connection ''b'' (fst (on_connection ''a'' server_start)))"
  let ?evs = "[Move ''a'' (1, 1.6, 1) 0 1000, Move ''b'' (2, 1.6, 2) 0 1030,
               Move ''a'' (3, 1.6, 3) 0 1050, Move ''b'' (4, 1.6, 4) 0 1051]"
  have p: "map_of (players ?st) ''a'' = Some \<lparr>player_id = ''a'', position = (0, 1.6, 0), rotation = 0\<rparr>"
    by (simp add: on_connection_def server_start_def Let_def)
  have "lastBroadcast ?st = 0"
    by (simp add: on_connection_def server_start_def Let_def)
  moreover have "broadcast_times ?evs ?st = [1000, 1051]"
    by (simp add: on_connection_def server_start_def on_move_def Let_def BROADCAST_INTERVAL_def)
  ultimately show ?thesis
    using move_throttled [OF p, of "(1, 1.6, 1)" 0 1000 ?evs] by simp
qed

end
